theory Spec2Isabelle
  imports Main "HOL-Library.AList"
begin

section \<open>Strings of the host language\<close>

text \<open>
  A JavaScript string is modelled as a \<^typ>\<open>string\<close>, one \<^typ>\<open>char\<close> per code unit;
  the model covers the code units below 256.  Among them the regular expression class
  \<^verbatim>\<open>\s\<close> and \<^verbatim>\<open>String.prototype.trim\<close> treat tab, line feed, vertical tab, form feed,
  carriage return, space and no-break space as white space, and \<^verbatim>\<open>.\<close> refuses the line
  terminators line feed and carriage return.
\<close>

definition is_space :: "char \<Rightarrow> bool" where
  "is_space c = (of_char c \<in> {9, 10, 11, 12, 13, 32, 160 :: nat})"

definition is_line_terminator :: "char \<Rightarrow> bool" where
  "is_line_terminator c = (of_char c \<in> {10, 13 :: nat})"

definition trim :: "string \<Rightarrow> string" where
  "trim s = rev (dropWhile is_space (rev (dropWhile is_space s)))"

definition startsWith :: "string \<Rightarrow> string \<Rightarrow> bool" where
  "startsWith s p = (take (length p) s = p)"

definition endsWith :: "string \<Rightarrow> string \<Rightarrow> bool" where
  "endsWith s p = (length p \<le> length s \<and> drop (length s - length p) s = p)"

fun join :: "string \<Rightarrow> string list \<Rightarrow> string" where
  "join sep [] = []"
| "join sep [x] = x"
| "join sep (x # y # ys) = x @ sep @ join sep (y # ys)"

text \<open>\<^verbatim>\<open>s.replace(pat, '')\<close> with a string pattern removes the first occurrence of it.\<close>

fun remove_first :: "string \<Rightarrow> string \<Rightarrow> string" where
  "remove_first pat [] = []"
| "remove_first pat (c # cs) =
     (if pat \<noteq> [] \<and> startsWith (c # cs) pat then drop (length pat) (c # cs)
      else c # remove_first pat cs)"

text \<open>
  \<^verbatim>\<open>toLowerCase\<close> on code units below 256: the letters A to Z and the Latin-1 capitals
  (\<^verbatim>\<open>0xC0\<close> to \<^verbatim>\<open>0xDE\<close> without the multiplication sign \<^verbatim>\<open>0xD7\<close>) move up by 32.
\<close>

definition upper_chars :: "char list" where
  "upper_chars = ''ABCDEFGHIJKLMNOPQRSTUVWXYZ'' @
     [CHR 0xC0, CHR 0xC1, CHR 0xC2, CHR 0xC3, CHR 0xC4, CHR 0xC5, CHR 0xC6, CHR 0xC7,
      CHR 0xC8, CHR 0xC9, CHR 0xCA, CHR 0xCB, CHR 0xCC, CHR 0xCD, CHR 0xCE, CHR 0xCF,
      CHR 0xD0, CHR 0xD1, CHR 0xD2, CHR 0xD3, CHR 0xD4, CHR 0xD5, CHR 0xD6,
      CHR 0xD8, CHR 0xD9, CHR 0xDA, CHR 0xDB, CHR 0xDC, CHR 0xDD, CHR 0xDE]"

definition lower_chars :: "char list" where
  "lower_chars = ''abcdefghijklmnopqrstuvwxyz'' @
     [CHR 0xE0, CHR 0xE1, CHR 0xE2, CHR 0xE3, CHR 0xE4, CHR 0xE5, CHR 0xE6, CHR 0xE7,
      CHR 0xE8, CHR 0xE9, CHR 0xEA, CHR 0xEB, CHR 0xEC, CHR 0xED, CHR 0xEE, CHR 0xEF,
      CHR 0xF0, CHR 0xF1, CHR 0xF2, CHR 0xF3, CHR 0xF4, CHR 0xF5, CHR 0xF6,
      CHR 0xF8, CHR 0xF9, CHR 0xFA, CHR 0xFB, CHR 0xFC, CHR 0xFD, CHR 0xFE]"

definition lower_char :: "char \<Rightarrow> char" where
  "lower_char c = (case map_of (zip upper_chars lower_chars) c of Some l \<Rightarrow> l | None \<Rightarrow> c)"

definition toLowerCase :: "string \<Rightarrow> string" where
  "toLowerCase s = map lower_char s"

text \<open>\<^verbatim>\<open>s.split(/\s+/)\<close>: the pieces between maximal runs of white space.\<close>

function split_spaces :: "string \<Rightarrow> string \<Rightarrow> string list" where
  "split_spaces acc [] = [rev acc]"
| "split_spaces acc (c # cs) =
     (if is_space c then rev acc # split_spaces [] (dropWhile is_space cs)
      else split_spaces (c # acc) cs)"
  by pat_completeness auto
termination
  by (relation "measure (\<lambda>(acc, s). length s)")
     (auto simp: le_imp_less_Suc length_dropWhile_le)

fun split_on :: "char \<Rightarrow> string \<Rightarrow> string list" where
  "split_on d [] = [[]]"
| "split_on d (c # cs) =
     (if c = d then [] # split_on d cs
      else (case split_on d cs of [] \<Rightarrow> [[c]] | w # ws \<Rightarrow> (c # w) # ws))"

section \<open>Error messages (types.ts)\<close>

definition NO_COMMAND :: "string \<Rightarrow> string" where
  "NO_COMMAND command = command @ '': command not provided''"

definition ERR_CMD_NOT_FOUND :: "string \<Rightarrow> string" where
  "ERR_CMD_NOT_FOUND command = command @ '': command not found''"

definition ERR_PERMISSION_DENIED :: "string \<Rightarrow> string" where
  "ERR_PERMISSION_DENIED filePath = filePath @ '': permission denied''"

definition ERR_NOT_A_DIRECTORY :: "string \<Rightarrow> string" where
  "ERR_NOT_A_DIRECTORY p = ''cd: '' @ p @ '': not a directory''"

definition ERR_NO_SUCH_DIRECTORY :: "string \<Rightarrow> string" where
  "ERR_NO_SUCH_DIRECTORY p = ''cd: '' @ p @ '': no such file or directory''"

definition ERR_INVALID_OPERATOR :: "string \<Rightarrow> string" where
  "ERR_INVALID_OPERATOR operator = operator @ '': invalid operator''"

definition ERR_UNKNOWN :: string where
  "ERR_UNKNOWN = ''An unknown error occurred''"

definition ERR_INVALID_COMMAND_CLASS :: "string \<Rightarrow> string" where
  "ERR_INVALID_COMMAND_CLASS p = p @ '': invalid command class''"

definition ERR_MISSING_PATH :: string where
  "ERR_MISSING_PATH = ''cd: missing operand''"

definition ERR_MKDIR_CREATE :: "string \<Rightarrow> string \<Rightarrow> string" where
  "ERR_MKDIR_CREATE dir message =
     ''mkdir: cannot create directory '' @ [CHR 39] @ dir @ [CHR 39] @ '': '' @ message"

section \<open>POSIX paths (node:path, posix flavour)\<close>

text \<open>
  \<^verbatim>\<open>path.posix.resolve\<close> reads its arguments from the right until one is absolute, falls
  back on the working directory of the host process (always absolute on POSIX, here the
  parameter \<open>host\<close>), and normalises: empty segments and \<^verbatim>\<open>.\<close> are dropped, \<^verbatim>\<open>..\<close> pops a
  segment and is ignored at the root.  The result is \<^verbatim>\<open>/\<close> followed by the segments
  joined with \<^verbatim>\<open>/\<close>.
\<close>

definition isAbsolute :: "string \<Rightarrow> bool" where
  "isAbsolute p = (case p of [] \<Rightarrow> False | c # _ \<Rightarrow> c = CHR ''/'')"

definition normalize_step :: "string list \<Rightarrow> string \<Rightarrow> string list" where
  "normalize_step st seg =
     (if seg = [] \<or> seg = ''.'' then st
      else if seg = ''..'' then butlast st
      else st @ [seg])"

definition normalize_segments :: "string list \<Rightarrow> string list" where
  "normalize_segments segs = foldl normalize_step [] segs"

definition render_path :: "string list \<Rightarrow> string" where
  "render_path segs = CHR ''/'' # join ''/'' segs"

definition resolve_segments :: "string \<Rightarrow> string \<Rightarrow> string \<Rightarrow> string list" where
  "resolve_segments host cwd p =
     normalize_segments
       (if isAbsolute p then split_on CHR ''/'' p
        else if isAbsolute cwd then split_on CHR ''/'' cwd @ split_on CHR ''/'' p
        else split_on CHR ''/'' host @ split_on CHR ''/'' cwd @ split_on CHR ''/'' p)"

definition path_resolve :: "string \<Rightarrow> string \<Rightarrow> string \<Rightarrow> string" where
  "path_resolve host cwd p = render_path (resolve_segments host cwd p)"

text \<open>\<^verbatim>\<open>path.posix.basename\<close>: the last non-empty segment, or the empty string.\<close>

definition basename :: "string \<Rightarrow> string" where
  "basename p =
     (let segs = filter (\<lambda>s. s \<noteq> []) (split_on CHR ''/'' p)
      in if segs = [] then [] else last segs)"

section \<open>Thrown values\<close>

text \<open>
  What a \<^verbatim>\<open>throw\<close> carries.  \<open>JsError code message\<close> is an \<^verbatim>\<open>Error\<close> object with its
  \<^verbatim>\<open>message\<close> and, for an error of the file system, its \<^verbatim>\<open>code\<close>.  \<open>NonError\<close> is any
  other value that has properties but no \<^verbatim>\<open>message\<close> (a thrown string or number).
  \<open>ThrownNull\<close> and \<open>ThrownUndefined\<close> are \<^verbatim>\<open>throw null\<close> and \<^verbatim>\<open>throw undefined\<close> (or a
  promise rejected without a reason): reading a property of either raises a
  \<^verbatim>\<open>TypeError\<close>.
\<close>

datatype errno = ENOENT | ENOTDIR | EISDIR | EEXIST

datatype thrown = JsError "errno option" string | NonError | ThrownNull | ThrownUndefined

definition throw_Error :: "string \<Rightarrow> thrown" where
  "throw_Error message = JsError None message"

text \<open>
  \<^verbatim>\<open>(err as Error).message\<close>: the message of an \<^verbatim>\<open>Error\<close>, \<^verbatim>\<open>undefined\<close> (here the empty
  string, falsy like it) for another value with properties, and a \<^verbatim>\<open>TypeError\<close> thrown
  by the read itself for \<^verbatim>\<open>null\<close> and \<^verbatim>\<open>undefined\<close>.
\<close>

definition read_message :: "thrown \<Rightarrow> thrown + string" where
  "read_message err =
     (case err of
        JsError _ message \<Rightarrow> Inr message
      | NonError \<Rightarrow> Inr []
      | ThrownNull \<Rightarrow>
          Inl (throw_Error (''Cannot read properties of null (reading '' @ [CHR 39]
                 @ ''message'' @ [CHR 39] @ '')''))
      | ThrownUndefined \<Rightarrow>
          Inl (throw_Error (''Cannot read properties of undefined (reading '' @ [CHR 39]
                 @ ''message'' @ [CHR 39] @ '')'')))"

text \<open>
  An error of the file system is always an \<^verbatim>\<open>Error\<close> object with a \<^verbatim>\<open>code\<close> and a
  \<^verbatim>\<open>message\<close>; \<open>thrown_fs\<close> is that object as a thrown value.
\<close>

datatype fs_error = FsError errno string

definition fs_code :: "fs_error \<Rightarrow> errno" where
  "fs_code err = (case err of FsError c _ \<Rightarrow> c)"

definition fs_message :: "fs_error \<Rightarrow> string" where
  "fs_message err = (case err of FsError _ m \<Rightarrow> m)"

definition thrown_fs :: "fs_error \<Rightarrow> thrown" where
  "thrown_fs err = JsError (Some (fs_code err)) (fs_message err)"

definition errno_text :: "errno \<Rightarrow> string" where
  "errno_text e =
     (case e of
        ENOENT \<Rightarrow> ''ENOENT: no such file or directory''
      | ENOTDIR \<Rightarrow> ''ENOTDIR: not a directory''
      | EISDIR \<Rightarrow> ''EISDIR: illegal operation on a directory''
      | EEXIST \<Rightarrow> ''EEXIST: file already exists'')"

definition createError :: "errno \<Rightarrow> string \<Rightarrow> string \<Rightarrow> fs_error" where
  "createError e func p =
     FsError e (errno_text e @ '', '' @ func @ '' '' @ [CHR 39] @ p @ [CHR 39])"

section \<open>The in-memory volume (memfs)\<close>

text \<open>
  The file system engine is the library memfs, outside the repository.  Its volume is
  modelled as the finite table from the segments of an absolute path to what is stored
  there: a regular file with its content, or a directory.  The root directory \<open>[]\<close>
  always exists and has no row.  The operations below are the ones the shell calls, with
  their POSIX outcomes; they are called with resolved, absolute paths.
\<close>

datatype inode = File string | Directory

type_synonym volume = "(string list \<times> inode) list"

definition emptyVolume :: volume where
  "emptyVolume = []"

definition node_at :: "volume \<Rightarrow> string list \<Rightarrow> inode option" where
  "node_at v p = (if p = [] then Some Directory else map_of v p)"

definition steps :: "string \<Rightarrow> string list" where
  "steps filename = normalize_segments (split_on CHR ''/'' filename)"

text \<open>
  A path that is not there: below a regular file the walk to it stops with
  \<^verbatim>\<open>ENOTDIR\<close>, anywhere else with \<^verbatim>\<open>ENOENT\<close>.
\<close>

fun below_file :: "volume \<Rightarrow> string list \<Rightarrow> string list \<Rightarrow> bool" where
  "below_file v pre [] = False"
| "below_file v pre (s # ss) =
     (case ss of
        [] \<Rightarrow> False
      | _ # _ \<Rightarrow>
          (case node_at v (pre @ [s]) of
             Some (File _) \<Rightarrow> True
           | _ \<Rightarrow> below_file v (pre @ [s]) ss))"

definition missing_code :: "volume \<Rightarrow> string list \<Rightarrow> errno" where
  "missing_code v p = (if below_file v [] p then ENOTDIR else ENOENT)"

definition fs_access :: "volume \<Rightarrow> string \<Rightarrow> fs_error + unit" where
  "fs_access v p =
     (case node_at v (steps p) of
        None \<Rightarrow> Inl (createError (missing_code v (steps p)) ''access'' p)
      | Some _ \<Rightarrow> Inr ())"

definition fs_lstat :: "volume \<Rightarrow> string \<Rightarrow> fs_error + inode" where
  "fs_lstat v p =
     (case node_at v (steps p) of
        None \<Rightarrow> Inl (createError (missing_code v (steps p)) ''lstat'' p)
      | Some n \<Rightarrow> Inr n)"

definition isDirectory :: "inode \<Rightarrow> bool" where
  "isDirectory n = (n = Directory)"

definition fs_readFile :: "volume \<Rightarrow> string \<Rightarrow> fs_error + string" where
  "fs_readFile v p =
     (case node_at v (steps p) of
        None \<Rightarrow> Inl (createError (missing_code v (steps p)) ''open'' p)
      | Some Directory \<Rightarrow> Inl (createError EISDIR ''open'' p)
      | Some (File c) \<Rightarrow> Inr c)"

text \<open>
  Opening a path for writing: a directory is refused, an existing file is opened, and a
  missing file is created when its parent is a directory.  The result is the content the
  file had (empty for a new one).
\<close>

definition open_for_write :: "volume \<Rightarrow> string \<Rightarrow> fs_error + string" where
  "open_for_write v p =
     (case node_at v (steps p) of
        Some Directory \<Rightarrow> Inl (createError EISDIR ''open'' p)
      | Some (File c) \<Rightarrow> Inr c
      | None \<Rightarrow>
          (case node_at v (butlast (steps p)) of
             None \<Rightarrow> Inl (createError ENOENT ''open'' p)
           | Some (File _) \<Rightarrow> Inl (createError ENOTDIR ''open'' p)
           | Some Directory \<Rightarrow> Inr []))"

definition fs_writeFile :: "volume \<Rightarrow> string \<Rightarrow> string \<Rightarrow> fs_error + volume" where
  "fs_writeFile v p data =
     (case open_for_write v p of
        Inl e \<Rightarrow> Inl e
      | Inr _ \<Rightarrow> Inr (AList.update (steps p) (File data) v))"

definition fs_appendFile :: "volume \<Rightarrow> string \<Rightarrow> string \<Rightarrow> fs_error + volume" where
  "fs_appendFile v p data =
     (case open_for_write v p of
        Inl e \<Rightarrow> Inl e
      | Inr old \<Rightarrow> Inr (AList.update (steps p) (File (old @ data)) v))"

text \<open>
  \<^verbatim>\<open>mkdir\<close> with \<^verbatim>\<open>recursive: true\<close> walks the segments from the root and creates each
  missing directory.  A regular file in the way stops it with \<^verbatim>\<open>ENOTDIR\<close>; when the
  whole path is an existing regular file, nothing is left to create and it returns
  without an error.  Without \<^verbatim>\<open>recursive\<close>, the error for a missing parent names the
  parent.
\<close>

fun mkdirp_from :: "string list \<Rightarrow> string list \<Rightarrow> volume \<Rightarrow> errno option \<times> volume" where
  "mkdirp_from pre [] v = (None, v)"
| "mkdirp_from pre (s # ss) v =
     (case node_at v (pre @ [s]) of
        Some (File _) \<Rightarrow> (if ss = [] then (None, v) else (Some ENOTDIR, v))
      | Some Directory \<Rightarrow> mkdirp_from (pre @ [s]) ss v
      | None \<Rightarrow> mkdirp_from (pre @ [s]) ss (AList.update (pre @ [s]) Directory v))"

definition fs_mkdir :: "volume \<Rightarrow> string \<Rightarrow> bool \<Rightarrow> fs_error option \<times> volume" where
  "fs_mkdir v p recursive =
     (if recursive then
        (case mkdirp_from [] (steps p) v of
           (None, v') \<Rightarrow> (None, v')
         | (Some e, v') \<Rightarrow> (Some (createError e ''mkdir'' p), v'))
      else if steps p = [] then (Some (createError EEXIST ''mkdir'' p), v)
      else
        (case node_at v (butlast (steps p)) of
           None \<Rightarrow> (Some (createError ENOENT ''mkdir'' (render_path (butlast (steps p)))), v)
         | Some (File _) \<Rightarrow> (Some (createError ENOTDIR ''mkdir'' p), v)
         | Some Directory \<Rightarrow>
             (case node_at v (steps p) of
                Some _ \<Rightarrow> (Some (createError EEXIST ''mkdir'' p), v)
              | None \<Rightarrow> (None, AList.update (steps p) Directory v))))"

definition fs_utimes :: "volume \<Rightarrow> string \<Rightarrow> fs_error + unit" where
  "fs_utimes v p =
     (case node_at v (steps p) of
        None \<Rightarrow> Inl (createError (missing_code v (steps p)) ''utimes'' p)
      | Some _ \<Rightarrow> Inr ())"

definition fs_copyFile :: "volume \<Rightarrow> string \<Rightarrow> string \<Rightarrow> fs_error + volume" where
  "fs_copyFile v src dest =
     (case fs_readFile v src of
        Inl e \<Rightarrow> Inl e
      | Inr buf \<Rightarrow> fs_writeFile v dest buf)"

text \<open>Removal: \<^verbatim>\<open>unlink\<close> of a regular file, and \<^verbatim>\<open>rm\<close> of a whole subtree.\<close>

definition fs_unlink :: "volume \<Rightarrow> string \<Rightarrow> fs_error + volume" where
  "fs_unlink v p =
     (case node_at v (steps p) of
        None \<Rightarrow> Inl (createError (missing_code v (steps p)) ''unlink'' p)
      | Some Directory \<Rightarrow> Inl (createError EISDIR ''unlink'' p)
      | Some (File _) \<Rightarrow> Inr (AList.delete (steps p) v))"

definition fs_rm_recursive :: "volume \<Rightarrow> string \<Rightarrow> volume" where
  "fs_rm_recursive v p =
     (if steps p = [] then v
      else filter (\<lambda>(q, n). take (length (steps p)) q \<noteq> steps p) v)"

section \<open>Commands (src/commands)\<close>

text \<open>
  What a command body reaches through \<^verbatim>\<open>this.shell\<close>: the current directory, the volume
  behind \<^verbatim>\<open>shell.fs\<close>, and \<^verbatim>\<open>shell.path\<close>, whose \<^verbatim>\<open>resolve\<close> may fall back on the working
  directory of the host process.
\<close>

record vstate =
  host_cwd :: string
  currentDirectory :: string
  volume :: volume

text \<open>
  \<open>execute\<close> returns the output or the thrown value, the state it leaves, and the
  argument array as the body leaves it (\<^verbatim>\<open>rm\<close> shifts its flags off the caller's array).
  \<open>CustomCommand\<close> is any other subclass of \<^verbatim>\<open>BaseCommand\<close>, given by its \<open>execute\<close>.
\<close>

type_synonym execute_result = "(thrown + string) \<times> vstate \<times> string list"

datatype command =
    EchoCommand
  | CdCommand
  | CatCommand
  | TouchCommand
  | MkdirCommand
  | RmCommand
  | CustomCommand "vstate \<Rightarrow> string list \<Rightarrow> execute_result"

definition resolvePath :: "vstate \<Rightarrow> string \<Rightarrow> string" where
  "resolvePath s targetPath = path_resolve (host_cwd s) (currentDirectory s) targetPath"

subsection \<open>echo\<close>

definition EchoCommand_execute :: "vstate \<Rightarrow> string list \<Rightarrow> execute_result" where
  "EchoCommand_execute s args =
     (if args = [] then (Inl (throw_Error (NO_COMMAND ''echo'')), s, args)
      else (Inr (join '' '' args), s, args))"

subsection \<open>cd, and the shell's changeDirectory\<close>

definition changeDirectory :: "vstate \<Rightarrow> string \<Rightarrow> string \<times> vstate" where
  "changeDirectory s newPath =
     (let targetPath = path_resolve (host_cwd s) (currentDirectory s) newPath
      in case fs_lstat (volume s) targetPath of
           Inr stats \<Rightarrow>
             if isDirectory stats then (targetPath, s\<lparr>currentDirectory := targetPath\<rparr>)
             else (ERR_NOT_A_DIRECTORY newPath, s)
         | Inl _ \<Rightarrow> (ERR_NO_SUCH_DIRECTORY newPath, s))"

text \<open>
  \<^verbatim>\<open>CdCommand.execute\<close> throws \<^verbatim>\<open>new Error(result)\<close> only when
  \<^verbatim>\<open>typeof result !== 'string'\<close>.  \<open>changeDirectory\<close> returns a string on each of its three
  paths, so the test is false and the body returns the empty string.
\<close>

definition typeof_is_string :: "string \<Rightarrow> bool" where
  "typeof_is_string result = True"

definition CdCommand_execute :: "vstate \<Rightarrow> string list \<Rightarrow> execute_result" where
  "CdCommand_execute s args =
     (case args of
        [] \<Rightarrow> (Inl (throw_Error ERR_MISSING_PATH), s, args)
      | newPath # _ \<Rightarrow>
          (let (result, s') = changeDirectory s newPath
           in if \<not> typeof_is_string result then (Inl (throw_Error result), s', args)
              else (Inr [], s', args)))"

subsection \<open>cat\<close>

text \<open>
  The \<^verbatim>\<open>catch\<close> of the loop body: what is an \<^verbatim>\<open>Error\<close> is reported by its code or its
  message, anything else (\<^verbatim>\<open>err instanceof Error\<close> is false) as unknown.
\<close>

definition cat_rethrow :: "string \<Rightarrow> thrown \<Rightarrow> thrown" where
  "cat_rethrow filePath err =
     (case err of
        JsError code message \<Rightarrow>
          if code = Some ENOENT then throw_Error (ERR_NO_SUCH_DIRECTORY (basename filePath))
          else throw_Error (''cat: '' @ basename filePath @ '': '' @ message)
      | _ \<Rightarrow> throw_Error (''cat: '' @ basename filePath @ '': '' @ ERR_UNKNOWN))"

definition cat_read :: "vstate \<Rightarrow> string \<Rightarrow> thrown + string" where
  "cat_read s filePath =
     (case fs_lstat (volume s) filePath of
        Inl err \<Rightarrow> Inl (cat_rethrow filePath (thrown_fs err))
      | Inr stats \<Rightarrow>
          if isDirectory stats
          then Inl (cat_rethrow filePath (throw_Error (ERR_NOT_A_DIRECTORY (basename filePath))))
          else (case fs_readFile (volume s) filePath of
                  Inl err \<Rightarrow> Inl (cat_rethrow filePath (thrown_fs err))
                | Inr data \<Rightarrow> Inr data))"

fun cat_loop :: "vstate \<Rightarrow> string list \<Rightarrow> string \<Rightarrow> thrown + string" where
  "cat_loop s [] output = Inr output"
| "cat_loop s (filePath # filePaths) output =
     (case cat_read s filePath of
        Inl err \<Rightarrow> Inl err
      | Inr data \<Rightarrow> cat_loop s filePaths (output @ data))"

definition CatCommand_execute :: "vstate \<Rightarrow> string list \<Rightarrow> execute_result" where
  "CatCommand_execute s args =
     (if args = [] then (Inl (throw_Error (NO_COMMAND ''cat'')), s, args)
      else (cat_loop s (map (resolvePath s) args) [], s, args))"

subsection \<open>touch\<close>

definition createFile :: "vstate \<Rightarrow> string \<Rightarrow> (thrown + string) \<times> vstate" where
  "createFile s filePath =
     (case fs_writeFile (volume s) filePath [] of
        Inl err \<Rightarrow>
          (Inl (throw_Error (''touch: cannot create file '' @ [CHR 39] @ filePath @ [CHR 39]
                   @ '': '' @ fs_message err)), s)
      | Inr v' \<Rightarrow> (Inr [], s\<lparr>volume := v'\<rparr>))"

definition TouchCommand_execute :: "vstate \<Rightarrow> string list \<Rightarrow> execute_result" where
  "TouchCommand_execute s args =
     (case args of
        [] \<Rightarrow> (Inl (throw_Error ERR_MISSING_PATH), s, args)
      | fileName # _ \<Rightarrow>
          if fileName = [] then (Inl (throw_Error ERR_MISSING_PATH), s, args)
          else
            (let filePath = resolvePath s fileName
             in case fs_utimes (volume s) filePath of
                  Inr _ \<Rightarrow> (Inr [], s, args)
                | Inl err \<Rightarrow>
                    if fs_code err = ENOENT
                    then (let (r, s') = createFile s filePath in (r, s', args))
                    else (Inl (throw_Error (''touch: cannot touch '' @ [CHR 39] @ fileName
                             @ [CHR 39] @ '': '' @ fs_message err)), s, args)))"

subsection \<open>mkdir\<close>

fun mkdir_parse ::
  "vstate \<Rightarrow> string list \<Rightarrow> bool \<Rightarrow> string list \<Rightarrow> thrown + bool \<times> string list" where
  "mkdir_parse s [] parents directories = Inr (parents, directories)"
| "mkdir_parse s (arg # rest) parents directories =
     (if startsWith arg ''-'' then
        (case find (\<lambda>c. c \<noteq> CHR ''p'') (tl arg) of
           Some c \<Rightarrow> Inl (throw_Error (ERR_INVALID_OPERATOR [c]))
         | None \<Rightarrow> mkdir_parse s rest (parents \<or> tl arg \<noteq> []) directories)
      else mkdir_parse s rest parents (directories @ [resolvePath s arg]))"

fun mkdir_loop :: "volume \<Rightarrow> bool \<Rightarrow> string list \<Rightarrow> string list \<Rightarrow> volume \<times> string list" where
  "mkdir_loop v parents [] errors = (v, errors)"
| "mkdir_loop v parents (dir # dirs) errors =
     (case fs_mkdir v dir parents of
        (None, v') \<Rightarrow> mkdir_loop v' parents dirs errors
      | (Some err, v') \<Rightarrow>
          mkdir_loop v' parents dirs
            (errors @ [ERR_MKDIR_CREATE (basename dir) (fs_message err)]))"

definition MkdirCommand_execute :: "vstate \<Rightarrow> string list \<Rightarrow> execute_result" where
  "MkdirCommand_execute s args =
     (if args = [] then (Inl (throw_Error ERR_MISSING_PATH), s, args)
      else
        (case mkdir_parse s args False [] of
           Inl err \<Rightarrow> (Inl err, s, args)
         | Inr (parents, directories) \<Rightarrow>
             (let (v', errors) = mkdir_loop (volume s) parents directories []
              in if errors \<noteq> [] then (Inl (throw_Error (join [CHR 0x0A] errors)), s\<lparr>volume := v'\<rparr>, args)
                 else (Inr [], s\<lparr>volume := v'\<rparr>, args))))"

subsection \<open>rm\<close>

text \<open>
  The loop over the leading flags shifts each one off the argument array.  The result is
  the thrown value if a flag is not \<^verbatim>\<open>-r\<close> or \<^verbatim>\<open>-R\<close>, the \<open>recursive\<close> option, and the
  array that is left.
\<close>

fun rm_flags :: "string list \<Rightarrow> bool \<Rightarrow> thrown option \<times> bool \<times> string list" where
  "rm_flags [] recursive = (None, recursive, [])"
| "rm_flags (option # rest) recursive =
     (if startsWith option ''-'' then
        (if option = ''-r'' \<or> option = ''-R'' then rm_flags rest True
         else (Some (throw_Error (ERR_INVALID_OPERATOR option)), recursive, rest))
      else (None, recursive, option # rest))"

text \<open>
  \<^verbatim>\<open>rmFunction\<close>, the closure that would delete the targets.  \<^verbatim>\<open>RmCommand.execute\<close> builds
  it and never calls it: the two lines that hand it to \<^verbatim>\<open>executeFunction\<close> are commented
  out.
\<close>

definition rm_rethrow :: "string \<Rightarrow> errno option \<Rightarrow> string \<Rightarrow> thrown" where
  "rm_rethrow target code message =
     (if code = Some ENOENT then throw_Error (ERR_NO_SUCH_DIRECTORY target)
      else throw_Error (''rm: cannot remove '' @ [CHR 39] @ target @ [CHR 39] @ '': ''
             @ message))"

fun rmFunction :: "bool \<Rightarrow> string list \<Rightarrow> volume \<Rightarrow> thrown + volume" where
  "rmFunction recursive [] v = Inr v"
| "rmFunction recursive (target # targets) v =
     (case fs_lstat v target of
        Inl err \<Rightarrow> Inl (rm_rethrow target (Some (fs_code err)) (fs_message err))
      | Inr stats \<Rightarrow>
          if isDirectory stats then
            (if recursive then rmFunction recursive targets (fs_rm_recursive v target)
             else Inl (rm_rethrow target None
                    (''rm: cannot remove '' @ [CHR 39] @ target @ [CHR 39]
                       @ '': Is a directory'')))
          else (case fs_unlink v target of
                  Inl err \<Rightarrow> Inl (rm_rethrow target (Some (fs_code err)) (fs_message err))
                | Inr v' \<Rightarrow> rmFunction recursive targets v'))"

definition RmCommand_execute :: "vstate \<Rightarrow> string list \<Rightarrow> execute_result" where
  "RmCommand_execute s args =
     (if args = [] then (Inl (throw_Error (NO_COMMAND ''rm'')), s, args)
      else
        (case rm_flags args False of
           (Some err, recursive, rest) \<Rightarrow> (Inl err, s, rest)
         | (None, recursive, rest) \<Rightarrow>
             if rest = [] then (Inl (throw_Error ERR_MISSING_PATH), s, rest)
             else (let targets = map (resolvePath s) rest in (Inr [], s, rest))))"

subsection \<open>Dispatch\<close>

fun execute :: "command \<Rightarrow> vstate \<Rightarrow> string list \<Rightarrow> execute_result" where
  "execute EchoCommand s args = EchoCommand_execute s args"
| "execute CdCommand s args = CdCommand_execute s args"
| "execute CatCommand s args = CatCommand_execute s args"
| "execute TouchCommand s args = TouchCommand_execute s args"
| "execute MkdirCommand s args = MkdirCommand_execute s args"
| "execute RmCommand s args = RmCommand_execute s args"
| "execute (CustomCommand body) s args = body s args"

section \<open>Hooks (src/hooks)\<close>

text \<open>
  A hook is called with a copy of the arguments (a post-hook also with the output); its
  return value is dropped, and what it throws leaves \<open>run\<close>.  The registry is a
  \<^verbatim>\<open>Map\<close> from command names to arrays of hooks.  The shell's journal records, in order,
  every event it emits and every call of a hook or of a command body.
\<close>

type_synonym pre_hook = "string list \<Rightarrow> thrown option"

type_synonym post_hook = "string list \<Rightarrow> string \<Rightarrow> thrown option"

datatype channel = Stdout | Stderr

datatype action =
    Emitted channel string
  | PreHookCall string nat
  | ExecuteCall string
  | PostHookCall string nat

fun pre_hooks_loop ::
  "pre_hook list \<Rightarrow> string list \<Rightarrow> string \<Rightarrow> nat \<Rightarrow> action list \<Rightarrow> thrown option \<times> action list" where
  "pre_hooks_loop [] args commandName k j = (None, j)"
| "pre_hooks_loop (hook # hooks) args commandName k j =
     (case hook args of
        Some err \<Rightarrow> (Some err, j @ [PreHookCall commandName k])
      | None \<Rightarrow> pre_hooks_loop hooks args commandName (Suc k) (j @ [PreHookCall commandName k]))"

fun post_hooks_loop ::
  "post_hook list \<Rightarrow> string list \<Rightarrow> string \<Rightarrow> string \<Rightarrow> nat \<Rightarrow> action list
     \<Rightarrow> thrown option \<times> action list" where
  "post_hooks_loop [] args output commandName k j = (None, j)"
| "post_hooks_loop (hook # hooks) args output commandName k j =
     (case hook args output of
        Some err \<Rightarrow> (Some err, j @ [PostHookCall commandName k])
      | None \<Rightarrow>
          post_hooks_loop hooks args output commandName (Suc k) (j @ [PostHookCall commandName k]))"

definition PreHook_register ::
  "(string \<Rightarrow> pre_hook list option) \<Rightarrow> string \<Rightarrow> pre_hook \<Rightarrow> (string \<Rightarrow> pre_hook list option)" where
  "PreHook_register hooks commandName hookFunction =
     hooks(commandName \<mapsto> (case hooks commandName of None \<Rightarrow> [] | Some hs \<Rightarrow> hs) @ [hookFunction])"

definition PostHook_register ::
  "(string \<Rightarrow> post_hook list option) \<Rightarrow> string \<Rightarrow> post_hook \<Rightarrow> (string \<Rightarrow> post_hook list option)" where
  "PostHook_register hooks commandName hookFunction =
     hooks(commandName \<mapsto> (case hooks commandName of None \<Rightarrow> [] | Some hs \<Rightarrow> hs) @ [hookFunction])"

section \<open>The shell (src/virtual-shell.ts)\<close>

record shell =
  vs :: vstate
  user :: string
  commands :: "(string \<times> command) list"
  preHook :: "string \<Rightarrow> pre_hook list option"
  postHook :: "string \<Rightarrow> post_hook list option"
  journal :: "action list"

definition PreHook_run :: "shell \<Rightarrow> string \<Rightarrow> string list \<Rightarrow> thrown option \<times> shell" where
  "PreHook_run sh commandName args =
     (case preHook sh commandName of
        None \<Rightarrow> (None, sh)
      | Some hooks \<Rightarrow>
          (let (r, j) = pre_hooks_loop hooks args commandName 0 (journal sh)
           in (r, sh\<lparr>journal := j\<rparr>)))"

definition PostHook_run :: "shell \<Rightarrow> string \<Rightarrow> string list \<Rightarrow> string \<Rightarrow> thrown option \<times> shell" where
  "PostHook_run sh commandName args output =
     (case postHook sh commandName of
        None \<Rightarrow> (None, sh)
      | Some hooks \<Rightarrow>
          (let (r, j) = post_hooks_loop hooks args output commandName 0 (journal sh)
           in (r, sh\<lparr>journal := j\<rparr>)))"

definition stdout :: "shell \<Rightarrow> string \<Rightarrow> string \<times> shell" where
  "stdout sh message =
     (let shellMessage = ''bash: '' @ message
      in (shellMessage, sh\<lparr>journal := journal sh @ [Emitted Stdout shellMessage]\<rparr>))"

definition stderr :: "shell \<Rightarrow> string \<Rightarrow> string \<times> shell" where
  "stderr sh message =
     (let shellErrorMessage = ''bash: '' @ message
      in (shellErrorMessage, sh\<lparr>journal := journal sh @ [Emitted Stderr shellErrorMessage]\<rparr>))"

definition isInvalidCommand :: "string \<Rightarrow> bool" where
  "isInvalidCommand command = (trim command = [])"

subsection \<open>extractRedirection\<close>

text \<open>
  The regular expression \<^verbatim>\<open>/(.*?)(\s*(?:>>|>)\s*(\S+))$/\<close>.  \<open>target_ok\<close> is
  \<^verbatim>\<open>\s*(\S+)$\<close> and \<open>tail_matches\<close> the whole second group, both anchored where the
  string starts.  \<open>lazy_prefix\<close> lets the lazy first group grow one character at a
  time, never over a line terminator, until the rest matches; \<open>regex_match\<close> moves the
  start of the match to the right when no length of the first group works.
\<close>

definition target_ok :: "string \<Rightarrow> bool" where
  "target_ok s =
     (let r = dropWhile is_space s in r \<noteq> [] \<and> list_all (\<lambda>c. \<not> is_space c) r)"

definition tail_matches :: "string \<Rightarrow> bool" where
  "tail_matches s =
     (case dropWhile is_space s of
        [] \<Rightarrow> False
      | c # r \<Rightarrow>
          c = CHR ''>'' \<and>
          ((case r of [] \<Rightarrow> False | d # r' \<Rightarrow> d = CHR ''>'' \<and> target_ok r') \<or> target_ok r))"

fun lazy_prefix :: "string \<Rightarrow> (string \<times> string) option" where
  "lazy_prefix [] = (if tail_matches [] then Some ([], []) else None)"
| "lazy_prefix (c # cs) =
     (if tail_matches (c # cs) then Some ([], c # cs)
      else if is_line_terminator c then None
      else (case lazy_prefix cs of
              None \<Rightarrow> None
            | Some (g1, g2) \<Rightarrow> Some (c # g1, g2)))"

fun regex_match :: "string \<Rightarrow> (string \<times> string) option" where
  "regex_match [] = lazy_prefix []"
| "regex_match (c # cs) =
     (case lazy_prefix (c # cs) of
        Some m \<Rightarrow> Some m
      | None \<Rightarrow> regex_match cs)"

definition or_null :: "string list \<Rightarrow> nat \<Rightarrow> string option" where
  "or_null xs i = (if i < length xs \<and> xs ! i \<noteq> [] then Some (xs ! i) else None)"

definition extractRedirection :: "string \<Rightarrow> string \<times> string option \<times> string option" where
  "extractRedirection command =
     (case regex_match command of
        None \<Rightarrow> (command, None, None)
      | Some (g1, g2) \<Rightarrow>
          (let commandInput = (if trim g1 = [] then command else trim g1);
               redirectionDetails = split_spaces [] (trim g2)
           in (commandInput, or_null redirectionDetails 0, or_null redirectionDetails 1)))"

subsection \<open>Tokens of shell-quote\<close>

text \<open>
  \<^verbatim>\<open>shellQuote.parse\<close> belongs to a library outside the repository, so \<open>executeCommand\<close>
  takes the tokenizer as its parameter \<open>parse\<close>.  A token is a string, an operator, a
  glob with its pattern, or a comment.  \<open>parse_words\<close> is what the tokenizer returns on
  a line of plain words (no quote, backslash, dollar, operator, glob or comment
  character): its words, split at white space.
\<close>

datatype ParseEntry = Str string | Op string | Glob string | Comment string

definition entry_text :: "ParseEntry \<Rightarrow> string" where
  "entry_text arg =
     (case arg of Str a \<Rightarrow> a | Glob pattern \<Rightarrow> pattern | Op op \<Rightarrow> op | Comment _ \<Rightarrow> [])"

definition parse_words :: "string \<Rightarrow> ParseEntry list" where
  "parse_words line = map Str (filter (\<lambda>w. w \<noteq> []) (split_spaces [] line))"

subsection \<open>The command registry\<close>

text \<open>
  \<^verbatim>\<open>this.commands\<close> is a plain object.  \<^verbatim>\<open>name in this.commands\<close> holds for its own
  properties, set by \<open>registerCommand\<close>, and for the properties every plain object
  inherits from \<^verbatim>\<open>Object.prototype\<close>; reading an inherited one gives a value that has no
  \<^verbatim>\<open>execute\<close> method.
\<close>

definition Object_prototype_keys :: "string list" where
  "Object_prototype_keys =
     [''constructor'', ''__defineGetter__'', ''__defineSetter__'', ''hasOwnProperty'',
      ''__lookupGetter__'', ''__lookupSetter__'', ''isPrototypeOf'', ''propertyIsEnumerable'',
      ''toString'', ''valueOf'', ''__proto__'', ''toLocaleString'']"

datatype property = Registered command | Inherited | Missing

definition commands_get :: "(string \<times> command) list \<Rightarrow> string \<Rightarrow> property" where
  "commands_get cmds name =
     (case map_of cmds name of
        Some c \<Rightarrow> Registered c
      | None \<Rightarrow> if name \<in> set Object_prototype_keys then Inherited else Missing)"

definition in_commands :: "(string \<times> command) list \<Rightarrow> string \<Rightarrow> bool" where
  "in_commands cmds name =
     (case commands_get cmds name of Missing \<Rightarrow> False | _ \<Rightarrow> True)"

definition registerCommand :: "shell \<Rightarrow> string \<Rightarrow> command \<Rightarrow> shell" where
  "registerCommand sh name commandInstance =
     sh\<lparr>commands := AList.update name commandInstance (commands sh)\<rparr>"

definition getBuiltInCommands :: "shell \<Rightarrow> string list" where
  "getBuiltInCommands sh = map fst (commands sh)"

subsection \<open>processRedirection\<close>

text \<open>
  \<^verbatim>\<open>message || ERROR_MESSAGES.UNKNOWN\<close>: the empty string is falsy.
\<close>

definition or_unknown :: "string \<Rightarrow> string" where
  "or_unknown message = (if message = [] then ERR_UNKNOWN else message)"

definition processRedirection ::
  "shell \<Rightarrow> string \<Rightarrow> string \<Rightarrow> string \<Rightarrow> string \<Rightarrow> string \<times> shell" where
  "processRedirection sh output operator targetFile commandName =
     (let filePath = path_resolve (host_cwd (vs sh)) (currentDirectory (vs sh)) targetFile
      in case fs_access (volume (vs sh)) filePath of
           Inl _ \<Rightarrow> stderr sh (ERR_PERMISSION_DENIED filePath)
         | Inr _ \<Rightarrow>
             if operator = ''>'' then
               (case fs_writeFile (volume (vs sh)) filePath (output @ [CHR 0x0A]) of
                  Inl err \<Rightarrow> stderr sh (commandName @ '': '' @ or_unknown (fs_message err))
                | Inr v' \<Rightarrow> stdout (sh\<lparr>vs := (vs sh)\<lparr>volume := v'\<rparr>\<rparr>) [])
             else if operator = ''>>'' then
               (case fs_appendFile (volume (vs sh)) filePath (output @ [CHR 0x0A]) of
                  Inl err \<Rightarrow> stderr sh (commandName @ '': '' @ or_unknown (fs_message err))
                | Inr v' \<Rightarrow> stdout (sh\<lparr>vs := (vs sh)\<lparr>volume := v'\<rparr>\<rparr>) [])
             else stderr sh (ERR_INVALID_OPERATOR operator))"

subsection \<open>executeCommand\<close>

text \<open>
  \<open>executeCommand\<close> is an \<^verbatim>\<open>async\<close> method: its promise resolves with a string
  (\<open>Inr\<close>) or rejects with what was thrown and not caught (\<open>Inl\<close>).  \<open>resolved\<close> is a
  \<^verbatim>\<open>return\<close> of the string a call of \<open>stdout\<close> or \<open>stderr\<close> gives.

  \<open>run_command\<close> is the \<^verbatim>\<open>try\<close> block of \<open>executeCommand\<close>, entered once the name is a
  property of the registry, and \<open>catch_error\<close> its handler,
  \<^verbatim>\<open>return this.stderr((err as Error).message || ERROR_MESSAGES.UNKNOWN)\<close>.  The handler
  reads the message before it calls \<open>stderr\<close>, so when the read throws, the
  \<^verbatim>\<open>TypeError\<close> leaves \<open>executeCommand\<close> and nothing is emitted.  The instance is read
  from the registry after the pre-hooks have run.  Calling \<^verbatim>\<open>execute\<close> on an inherited
  property throws the \<^verbatim>\<open>TypeError\<close> of a call of \<^verbatim>\<open>undefined\<close>.
\<close>

definition resolved :: "string \<times> shell \<Rightarrow> (thrown + string) \<times> shell" where
  "resolved r = (Inr (fst r), snd r)"

definition catch_error :: "shell \<Rightarrow> thrown \<Rightarrow> (thrown + string) \<times> shell" where
  "catch_error sh err =
     (case read_message err of
        Inl typeError \<Rightarrow> (Inl typeError, sh)
      | Inr message \<Rightarrow> resolved (stderr sh (or_unknown message)))"

definition run_command ::
  "shell \<Rightarrow> string \<Rightarrow> string list \<Rightarrow> string option \<Rightarrow> string option
     \<Rightarrow> (thrown + string) \<times> shell" where
  "run_command sh commandName commandArgs redirectionOperator targetFile =
     (case PreHook_run sh commandName commandArgs of
        (Some err, sh1) \<Rightarrow> catch_error sh1 err
      | (None, sh1) \<Rightarrow>
          (case commands_get (commands sh1) commandName of
             Missing \<Rightarrow> resolved (stderr sh1 (ERR_CMD_NOT_FOUND commandName))
           | Inherited \<Rightarrow>
               catch_error sh1 (throw_Error ''commandInstance.execute is not a function'')
           | Registered commandInstance \<Rightarrow>
               (case execute commandInstance (vs sh1) commandArgs of
                  (Inl err, s', args') \<Rightarrow>
                    catch_error
                      (sh1\<lparr>vs := s', journal := journal sh1 @ [ExecuteCall commandName]\<rparr>) err
                | (Inr output, s', args') \<Rightarrow>
                    (case PostHook_run
                            (sh1\<lparr>vs := s', journal := journal sh1 @ [ExecuteCall commandName]\<rparr>)
                            commandName args' output of
                       (Some err, sh3) \<Rightarrow> catch_error sh3 err
                     | (None, sh3) \<Rightarrow>
                         (case (redirectionOperator, targetFile) of
                            (Some operator, Some file) \<Rightarrow>
                              resolved (processRedirection sh3 output operator file commandName)
                          | _ \<Rightarrow> (Inr output, sh3))))))"

definition executeCommand ::
  "(string \<Rightarrow> ParseEntry list) \<Rightarrow> shell \<Rightarrow> string \<Rightarrow> (thrown + string) \<times> shell" where
  "executeCommand parse sh command =
     (if isInvalidCommand command then resolved (stderr sh (NO_COMMAND ''bash''))
      else
        (let (commandInput, redirectionOperator, targetFile) = extractRedirection command;
             args = parse commandInput;
             commandName = (case args of Str a # _ \<Rightarrow> a | _ \<Rightarrow> []);
             commandArgs = filter (\<lambda>arg. arg \<noteq> []) (map entry_text (tl args))
         in if commandName = [] then resolved (stderr sh (NO_COMMAND ''bash''))
            else if \<not> in_commands (commands sh) commandName
            then resolved (stderr sh (ERR_CMD_NOT_FOUND commandName))
            else run_command sh commandName commandArgs redirectionOperator targetFile))"

section \<open>The isolate (src/commands/base-command.ts)\<close>

text \<open>
  \<^verbatim>\<open>setupIsolate\<close> declares the local variables \<^verbatim>\<open>output\<close> and \<^verbatim>\<open>errorOutput\<close>.  The
  console object it hands to the isolate closes over them: \<^verbatim>\<open>log\<close> and \<^verbatim>\<open>error\<close> append
  their arguments, joined by a space, and a new line.  The object it returns holds the
  values the two variables have when it returns.  Strings are immutable values, so a
  later append changes the variable (\<open>console_cells\<close>) and not the returned field
  (\<open>output_snapshot\<close>, \<open>errorOutput_snapshot\<close>).
\<close>

record console_cells =
  output_cell :: string
  errorOutput_cell :: string

record isolate_setup =
  cells :: console_cells
  output_snapshot :: string
  errorOutput_snapshot :: string

datatype console_call = Console_log "string list" | Console_error "string list"

definition consoleRef :: "console_cells \<Rightarrow> console_call \<Rightarrow> console_cells" where
  "consoleRef c call =
     (case call of
        Console_log args \<Rightarrow> c\<lparr>output_cell := output_cell c @ join '' '' args @ [CHR 0x0A]\<rparr>
      | Console_error args \<Rightarrow>
          c\<lparr>errorOutput_cell := errorOutput_cell c @ join '' '' args @ [CHR 0x0A]\<rparr>)"

definition setupIsolate :: isolate_setup where
  "setupIsolate =
     (let c = \<lparr>output_cell = [], errorOutput_cell = []\<rparr>
      in \<lparr>cells = c, output_snapshot = output_cell c, errorOutput_snapshot = errorOutput_cell c\<rparr>)"

text \<open>
  What the script does inside the isolate, as the host sees it: the calls it makes to
  the bridged console, and how it ends (it returns, it throws, or the timeout stops it,
  which \<^verbatim>\<open>script.run\<close> reports as an \<^verbatim>\<open>Error\<close>).
\<close>

datatype script_end = Returned | Threw thrown | TimedOut

record script_run =
  calls :: "console_call list"
  ending :: script_end

record function_result =
  res_stdout :: string
  res_stderr :: string

text \<open>
  \<open>executeFunction\<close> returns the \<^verbatim>\<open>{stdout, stderr}\<close> object and, for comparison, the
  final values of the captured variables.
\<close>

definition executeFunction :: "script_run \<Rightarrow> function_result \<times> console_cells" where
  "executeFunction run =
     (let setup = setupIsolate;
          c = foldl consoleRef (cells setup) (calls run)
      in case ending run of
           Returned \<Rightarrow>
             (\<lparr>res_stdout = trim (output_snapshot setup),
               res_stderr = trim (errorOutput_snapshot setup)\<rparr>, c)
         | Threw err \<Rightarrow>
             (\<lparr>res_stdout = trim (output_snapshot setup),
               res_stderr = (case err of JsError _ message \<Rightarrow> message
                             | _ \<Rightarrow> ''Unknown error'')\<rparr>, c)
         | TimedOut \<Rightarrow>
             (\<lparr>res_stdout = trim (output_snapshot setup),
               res_stderr = ''Script execution timed out.''\<rparr>, c))"

section \<open>Snapshots of the volume\<close>

text \<open>
  \<^verbatim>\<open>Volume.toJSON\<close> of memfs lists every regular file under its path with its content
  and every empty directory under its path with \<^verbatim>\<open>null\<close>; the root has no entry.
  \<^verbatim>\<open>Volume.fromJSON\<close> starts from an empty volume and, for each entry, creates the
  directories above a file and writes it, or creates the directory and those above it.
  memfs lists the entries in the order of a walk of its tree and the model in the order
  of its table.  The serialized text is modelled by the object it denotes, which
  \<^verbatim>\<open>JSON.parse\<close> gives back from the text \<^verbatim>\<open>JSON.stringify\<close> wrote.
\<close>

type_synonym json = "(string \<times> string option) list"

datatype json_text = JsonText json

definition JSON_stringify :: "json \<Rightarrow> json_text" where
  "JSON_stringify obj = JsonText obj"

definition JSON_parse :: "json_text \<Rightarrow> json" where
  "JSON_parse t = (case t of JsonText obj \<Rightarrow> obj)"

definition has_child :: "volume \<Rightarrow> string list \<Rightarrow> bool" where
  "has_child v p = list_ex (\<lambda>(q, n). q \<noteq> [] \<and> butlast q = p) v"

definition json_entry :: "volume \<Rightarrow> string list \<times> inode \<Rightarrow> json" where
  "json_entry v e =
     (case e of
        (p, File c) \<Rightarrow> [(render_path p, Some c)]
      | (p, Directory) \<Rightarrow> if has_child v p then [] else [(render_path p, None)])"

definition Volume_toJSON :: "volume \<Rightarrow> json" where
  "Volume_toJSON v = concat (map (json_entry v) v)"

definition fromJSON_entry :: "volume \<Rightarrow> string \<times> string option \<Rightarrow> fs_error + volume" where
  "fromJSON_entry v e =
     (case e of
        (filename, Some data) \<Rightarrow>
          (case mkdirp_from [] (butlast (steps filename)) v of
             (Some err, _) \<Rightarrow> Inl (createError err ''mkdir'' filename)
           | (None, v') \<Rightarrow> fs_writeFile v' filename data)
      | (filename, None) \<Rightarrow>
          (case mkdirp_from [] (steps filename) v of
             (Some err, _) \<Rightarrow> Inl (createError err ''mkdir'' filename)
           | (None, v') \<Rightarrow> Inr v'))"

fun fromJSON_loop :: "json \<Rightarrow> volume \<Rightarrow> fs_error + volume" where
  "fromJSON_loop [] v = Inr v"
| "fromJSON_loop (e # es) v =
     (case fromJSON_entry v e of
        Inl err \<Rightarrow> Inl err
      | Inr v' \<Rightarrow> fromJSON_loop es v')"

definition Volume_fromJSON :: "json \<Rightarrow> fs_error + volume" where
  "Volume_fromJSON obj = fromJSON_loop obj emptyVolume"

definition serializeVolume :: "shell \<Rightarrow> json_text" where
  "serializeVolume sh = JSON_stringify (Volume_toJSON (volume (vs sh)))"

text \<open>
  \<open>deserializeVolume\<close> on a constructed shell: \<^verbatim>\<open>this.volume.reset()\<close> empties the
  volume in use, then the parsed snapshot becomes the volume of the shell.
\<close>

definition deserializeVolume :: "shell \<Rightarrow> json_text \<Rightarrow> (thrown + volume) \<times> shell" where
  "deserializeVolume sh serializedVolume =
     (case Volume_fromJSON (JSON_parse serializedVolume) of
        Inl err \<Rightarrow> (Inl (thrown_fs err), sh\<lparr>vs := (vs sh)\<lparr>volume := emptyVolume\<rparr>\<rparr>)
      | Inr v \<Rightarrow> (Inr v, sh\<lparr>vs := (vs sh)\<lparr>volume := v\<rparr>\<rparr>))"

text \<open>The mutations of a volume; one that fails leaves what it had done before failing.\<close>

datatype mutation =
    WriteFile string string
  | AppendFile string string
  | Mkdir string bool
  | CopyFile string string
  | Unlink string
  | RmRecursive string

definition keep_on_error :: "volume \<Rightarrow> fs_error + volume \<Rightarrow> volume" where
  "keep_on_error v r = (case r of Inl _ \<Rightarrow> v | Inr v' \<Rightarrow> v')"

fun apply_mutation :: "volume \<Rightarrow> mutation \<Rightarrow> volume" where
  "apply_mutation v (WriteFile p data) = keep_on_error v (fs_writeFile v p data)"
| "apply_mutation v (AppendFile p data) = keep_on_error v (fs_appendFile v p data)"
| "apply_mutation v (Mkdir p recursive) = snd (fs_mkdir v p recursive)"
| "apply_mutation v (CopyFile src dest) = keep_on_error v (fs_copyFile v src dest)"
| "apply_mutation v (Unlink p) = keep_on_error v (fs_unlink v p)"
| "apply_mutation v (RmRecursive p) = fs_rm_recursive v p"

definition apply_mutations :: "mutation list \<Rightarrow> volume \<Rightarrow> volume" where
  "apply_mutations ms v = foldl apply_mutation v ms"

text \<open>
  The invariant of a volume built by mutations: no path is listed twice, every listed
  path is made of proper names, and what lies above it is a directory.
\<close>

definition valid_name :: "string \<Rightarrow> bool" where
  "valid_name s = (s \<noteq> [] \<and> s \<noteq> ''.'' \<and> s \<noteq> ''..'' \<and> CHR ''/'' \<notin> set s)"

definition wf_volume :: "volume \<Rightarrow> bool" where
  "wf_volume v =
     (distinct (map fst v) \<and>
      (\<forall>(p, n) \<in> set v. p \<noteq> [] \<and> list_all valid_name p \<and> node_at v (butlast p) = Some Directory))"

section \<open>Construction and the import of the command modules\<close>

text \<open>
  A module found in the commands directory is given by the values it exports.  A
  function among them is described by the two tests \<open>isValidCommand\<close> makes on it
  (\<^verbatim>\<open>Object.getPrototypeOf(C) === Function.prototype\<close>, and \<^verbatim>\<open>BaseCommand\<close> being on the
  prototype chain of \<^verbatim>\<open>C.prototype\<close>) and by the command that \<^verbatim>\<open>new C({shell})\<close> builds.
\<close>

record js_class =
  prototype_is_Function_prototype :: bool
  BaseCommand_on_prototype_chain :: bool
  construct :: command

datatype exported = Function_value js_class | Other_value

definition is_function :: "exported \<Rightarrow> bool" where
  "is_function e = (case e of Function_value _ \<Rightarrow> True | Other_value \<Rightarrow> False)"

definition isValidCommand :: "exported \<Rightarrow> bool" where
  "isValidCommand CommandClass =
     (case CommandClass of
        Function_value k \<Rightarrow> prototype_is_Function_prototype k \<and> BaseCommand_on_prototype_chain k
      | Other_value \<Rightarrow> False)"

type_synonym module_loader = "string \<Rightarrow> thrown + exported list"

text \<open>
  The body of the \<^verbatim>\<open>async\<close> function \<open>importCommandModules\<close>, run to its end: the
  outcome of its promise (\<open>None\<close> when fulfilled, the thrown value when rejected) and
  the registry it leaves.
\<close>

fun importCommandModules ::
  "string \<Rightarrow> module_loader \<Rightarrow> string list \<Rightarrow> (string \<times> command) list
     \<Rightarrow> thrown option \<times> (string \<times> command) list" where
  "importCommandModules host load [] cmds = (None, cmds)"
| "importCommandModules host load (file # files) cmds =
     (if \<not> endsWith file ''.js'' then importCommandModules host load files cmds
      else
        (let commandName = toLowerCase (remove_first ''-command.js'' file);
             commandPath = path_resolve host ''commands'' file
         in case load (''file://'' @ commandPath) of
              Inl err \<Rightarrow> (Some err, cmds)
            | Inr values \<Rightarrow>
                (case find is_function values of
                   Some (Function_value k) \<Rightarrow>
                     if isValidCommand (Function_value k)
                     then importCommandModules host load files
                            (AList.update commandName (construct k) cmds)
                     else (Some (throw_Error (ERR_INVALID_COMMAND_CLASS commandPath)), cmds)
                 | _ \<Rightarrow> (Some (throw_Error (ERR_INVALID_COMMAND_CLASS commandPath)), cmds))))"

record VirtualShellOptions =
  opt_serializedVolume :: "json_text option"
  opt_currentDirectory :: "string option"
  opt_user :: "string option"

text \<open>
  What \<^verbatim>\<open>new VirtualShell(options)\<close> gives when it returns: the shell as the constructor
  leaves it, the outcome of the promise of \<open>importCommandModules\<close>, which the
  constructor drops without awaiting it, and the shell once that promise has settled.
  An \<^verbatim>\<open>async\<close> function never throws into its caller, and it registers nothing before
  its first \<^verbatim>\<open>await\<close>, so the shell that is returned has an empty registry.
\<close>

record construction =
  shell_returned :: shell
  import_promise :: "thrown option"
  shell_settled :: shell

definition or_default :: "string option \<Rightarrow> string \<Rightarrow> string" where
  "or_default v d = (case v of None \<Rightarrow> d | Some x \<Rightarrow> if x = [] then d else x)"

definition Object_assign :: "string \<Rightarrow> string option \<Rightarrow> string" where
  "Object_assign field v = (case v of None \<Rightarrow> field | Some x \<Rightarrow> x)"

text \<open>
  With \<^verbatim>\<open>options.serializedVolume\<close> the constructor calls \<open>deserializeVolume\<close> while
  \<^verbatim>\<open>this.volume\<close> is still undefined, and \<^verbatim>\<open>this.volume.reset()\<close> throws a \<^verbatim>\<open>TypeError\<close>.
  \<open>readdir\<close> is the outcome of \<^verbatim>\<open>readdirSync(commandsDir)\<close>.
\<close>

definition VirtualShell_constructor ::
  "string \<Rightarrow> VirtualShellOptions \<Rightarrow> thrown + string list \<Rightarrow> module_loader
     \<Rightarrow> thrown + construction" where
  "VirtualShell_constructor host options readdir load =
     (case opt_serializedVolume options of
        Some _ \<Rightarrow>
          Inl (throw_Error (''Cannot read properties of undefined (reading '' @ [CHR 39]
                 @ ''reset'' @ [CHR 39] @ '')''))
      | None \<Rightarrow>
          (case readdir of
             Inl err \<Rightarrow> Inl err
           | Inr files \<Rightarrow>
               (let sh = \<lparr>vs = \<lparr>host_cwd = host,
                               currentDirectory =
                                 Object_assign (or_default (opt_currentDirectory options) ''/'')
                                   (opt_currentDirectory options),
                               volume = emptyVolume\<rparr>,
                         user = Object_assign (or_default (opt_user options) ''guest'')
                                  (opt_user options),
                         commands = [], preHook = Map.empty, postHook = Map.empty,
                         journal = []\<rparr>;
                    (outcome, cmds) = importCommandModules host load files []
                in Inr \<lparr>shell_returned = sh, import_promise = outcome,
                        shell_settled = sh\<lparr>commands := cmds\<rparr>\<rparr>)))"

section \<open>Predicates of the properties\<close>

text \<open>
  An argument is a flag when it starts with a dash.  \<^verbatim>\<open>rm\<close> accepts an argument list
  whose leading flags are all \<^verbatim>\<open>-r\<close> or \<^verbatim>\<open>-R\<close> and that names a target after them.
\<close>

definition is_flag :: "string \<Rightarrow> bool" where
  "is_flag a = startsWith a ''-''"

definition rm_accepts :: "string list \<Rightarrow> bool" where
  "rm_accepts args =
     (list_all (\<lambda>a. a = ''-r'' \<or> a = ''-R'') (takeWhile is_flag args)
      \<and> dropWhile is_flag args \<noteq> [])"

text \<open>
  The events a journal holds, in order, and its calls of post-hooks.
\<close>

fun event_of :: "action \<Rightarrow> (channel \<times> string) list" where
  "event_of (Emitted c m) = [(c, m)]"
| "event_of (PreHookCall n k) = []"
| "event_of (ExecuteCall n) = []"
| "event_of (PostHookCall n k) = []"

definition emitted :: "action list \<Rightarrow> (channel \<times> string) list" where
  "emitted j = concat (map event_of j)"

fun is_post_hook_call :: "action \<Rightarrow> bool" where
  "is_post_hook_call (PostHookCall n k) = True"
| "is_post_hook_call (Emitted c m) = False"
| "is_post_hook_call (PreHookCall n k) = False"
| "is_post_hook_call (ExecuteCall n) = False"

definition post_hook_calls :: "action list \<Rightarrow> action list" where
  "post_hook_calls j = filter is_post_hook_call j"

text \<open>
  A shell as the constructor leaves it by default (empty volume, \<^verbatim>\<open>/\<close>, \<^verbatim>\<open>guest\<close>, no
  hooks), with the commands of the repository registered under their lower-case names.
\<close>

definition builtin_commands :: "(string \<times> command) list" where
  "builtin_commands =
     [(''cat'', CatCommand), (''cd'', CdCommand), (''echo'', EchoCommand),
      (''mkdir'', MkdirCommand), (''rm'', RmCommand), (''touch'', TouchCommand)]"

definition fresh_shell :: shell where
  "fresh_shell =
     \<lparr>vs = \<lparr>host_cwd = ''/'', currentDirectory = ''/'', volume = emptyVolume\<rparr>,
      user = ''guest'', commands = builtin_commands,
      preHook = Map.empty, postHook = Map.empty, journal = []\<rparr>"

text \<open>The default shell with one post-hook registered for \<^verbatim>\<open>cat\<close>.\<close>

definition hooked_shell :: shell where
  "hooked_shell =
     fresh_shell\<lparr>postHook := PostHook_register Map.empty ''cat'' (\<lambda>args output. None)\<rparr>"

text \<open>
  A command whose body does \<^verbatim>\<open>throw undefined\<close>, and the default shell with it
  registered as \<^verbatim>\<open>boom\<close> and one post-hook registered for that name.
\<close>

definition throwing_command :: command where
  "throwing_command = CustomCommand (\<lambda>s args. (Inl ThrownUndefined, s, args))"

definition throwing_shell :: shell where
  "throwing_shell =
     (registerCommand fresh_shell ''boom'' throwing_command)
       \<lparr>postHook := PostHook_register Map.empty ''boom'' (\<lambda>args output. None)\<rparr>"

text \<open>The path a redirection writes to, and the new-line character it appends.\<close>

definition redirection_target :: "shell \<Rightarrow> string \<Rightarrow> string" where
  "redirection_target sh targetFile =
     path_resolve (host_cwd (vs sh)) (currentDirectory (vs sh)) targetFile"

definition newline :: string where
  "newline = [CHR 0x0A]"

text \<open>
  The default shell after \<^verbatim>\<open>mkdir /tmp\<close> and \<^verbatim>\<open>touch /tmp/out.txt\<close>, the one after
  \<^verbatim>\<open>mkdir /tmp\<close> alone, and one with the same volume and some content in the file.
\<close>

definition prepared_shell :: shell where
  "prepared_shell =
     snd (executeCommand parse_words
            (snd (executeCommand parse_words fresh_shell ''mkdir /tmp'')) ''touch /tmp/out.txt'')"


definition file_shell :: shell where
  "file_shell =
     fresh_shell\<lparr>vs := (vs fresh_shell)
       \<lparr>volume := [([''tmp''], Directory), ([''tmp'', ''out.txt''], File ''old'')]\<rparr>\<rparr>"

text \<open>
  A shell whose volume was built by mutations: two directories, a file, an empty
  directory below a new one, an append, and a write that fails for want of a parent.
\<close>

definition snapshot_mutations :: "mutation list" where
  "snapshot_mutations =
     [Mkdir ''/tmp'' False, WriteFile ''/tmp/out.txt'' ''one'', Mkdir ''/var/empty'' True,
      AppendFile ''/tmp/out.txt'' ''two'', WriteFile ''/missing/file'' ''x'']"

definition snapshot_shell :: shell where
  "snapshot_shell =
     fresh_shell\<lparr>vs := (vs fresh_shell)\<lparr>volume := apply_mutations snapshot_mutations emptyVolume\<rparr>\<rparr>"

section \<open>Evaluation and frame lemmas\<close>

lemmas eval_defs =
  executeCommand_def isInvalidCommand_def trim_def is_space_def is_line_terminator_def
  extractRedirection_def tail_matches_def target_ok_def or_null_def parse_words_def
  entry_text_def in_commands_def commands_get_def Object_prototype_keys_def
  run_command_def PreHook_run_def PostHook_run_def catch_error_def read_message_def
  or_unknown_def resolved_def throw_Error_def stderr_def stdout_def
  fresh_shell_def builtin_commands_def emptyVolume_def Let_def

lemma emitted_append [simp]: "emitted (j @ k) = emitted j @ emitted k"
  by (simp add: emitted_def)

lemma post_hook_calls_append [simp]: "post_hook_calls (j @ k) = post_hook_calls j @ post_hook_calls k"
  by (simp add: post_hook_calls_def)

lemma pre_hooks_loop_journal:
  "pre_hooks_loop hooks args n k j = (r, j') \<Longrightarrow>
   emitted j' = emitted j \<and> post_hook_calls j' = post_hook_calls j"
  by (induction hooks arbitrary: k j)
     (auto simp: emitted_def post_hook_calls_def split: option.splits)

lemma post_hooks_loop_journal:
  "post_hooks_loop hooks args out n k j = (r, j') \<Longrightarrow> emitted j' = emitted j"
  by (induction hooks arbitrary: k j) (auto simp: emitted_def split: option.splits)

lemma PreHook_run_frame:
  "PreHook_run sh n args = (r, sh1) \<Longrightarrow>
   vs sh1 = vs sh \<and> commands sh1 = commands sh \<and> postHook sh1 = postHook sh
   \<and> preHook sh1 = preHook sh \<and> user sh1 = user sh
   \<and> emitted (journal sh1) = emitted (journal sh)
   \<and> post_hook_calls (journal sh1) = post_hook_calls (journal sh)"
  by (auto simp: PreHook_run_def split: option.splits prod.splits dest: pre_hooks_loop_journal)

lemma PostHook_run_frame:
  "PostHook_run sh n args out = (r, sh1) \<Longrightarrow>
   vs sh1 = vs sh \<and> commands sh1 = commands sh \<and> postHook sh1 = postHook sh
   \<and> preHook sh1 = preHook sh \<and> user sh1 = user sh
   \<and> emitted (journal sh1) = emitted (journal sh)"
  by (auto simp: PostHook_run_def split: option.splits prod.splits dest: post_hooks_loop_journal)

lemma no_redirection: "regex_match line = None \<Longrightarrow> extractRedirection line = (line, None, None)"
  by (simp add: extractRedirection_def)

lemma commands_get_registered:
  "map_of cmds name = Some c \<Longrightarrow> commands_get cmds name = Registered c"
  by (simp add: commands_get_def)

lemmas fs_defs =
  fs_access_def fs_lstat_def fs_readFile_def fs_writeFile_def fs_appendFile_def
  open_for_write_def fs_mkdir_def fs_utimes_def node_at_def steps_def createError_def
  errno_text_def missing_code_def fs_message_def fs_code_def thrown_fs_def
  normalize_segments_def normalize_step_def path_resolve_def
  resolve_segments_def render_path_def isAbsolute_def resolvePath_def basename_def

section \<open>A successful command returns its own output\<close>

text \<open>
  Claim C1, as the code has it.  When the line is not blank, has no trailing
  redirection, its first token names a registered command, and the pre-hooks, the body
  and the post-hooks succeed, \<open>executeCommand\<close> returns the output of the body as it
  is, without the prefix \<^verbatim>\<open>bash: \<close>, and emits no event.
\<close>

theorem success_returns_raw_output:
  assumes "\<not> isInvalidCommand line"
    and "regex_match line = None"
    and "parse line = Str name # rest"
    and "name \<noteq> []"
    and "map_of (commands sh) name = Some c"
    and "PreHook_run sh name (filter (\<lambda>a. a \<noteq> []) (map entry_text rest)) = (None, sh1)"
    and "execute c (vs sh1) (filter (\<lambda>a. a \<noteq> []) (map entry_text rest)) = (Inr output, s', args')"
    and "PostHook_run (sh1\<lparr>vs := s', journal := journal sh1 @ [ExecuteCall name]\<rparr>) name args' output
           = (None, sh3)"
  shows "executeCommand parse sh line = (Inr output, sh3)
         \<and> emitted (journal sh3) = emitted (journal sh)"
proof -
  have same: "commands sh1 = commands sh"
    using PreHook_run_frame[OF assms(6)] by simp
  have "executeCommand parse sh line = (Inr output, sh3)"
    using assms same
    by (simp add: executeCommand_def no_redirection in_commands_def commands_get_registered
        run_command_def)
  moreover have "emitted (journal sh3) = emitted (journal sh)"
    using PreHook_run_frame[OF assms(6)] PostHook_run_frame[OF assms(8)] by (simp add: emitted_def)
  ultimately show ?thesis by simp
qed

theorem success_returns_raw_output_witness:
  "executeCommand parse_words fresh_shell ''echo hi''
     = (Inr ''hi'', fresh_shell\<lparr>journal := [ExecuteCall ''echo'']\<rparr>)
   \<and> emitted (journal (fresh_shell\<lparr>journal := [ExecuteCall ''echo'']\<rparr>))
       = emitted (journal fresh_shell)"
proof -
  have 1: "\<not> isInvalidCommand ''echo hi''"
    by (simp add: isInvalidCommand_def trim_def is_space_def)
  have 2: "regex_match ''echo hi'' = None"
    by (simp add: tail_matches_def target_ok_def is_space_def is_line_terminator_def)
  have 3: "parse_words ''echo hi'' = Str ''echo'' # [Str ''hi'']"
    by (simp add: parse_words_def is_space_def)
  have 4: "''echo'' \<noteq> []" by simp
  have 5: "map_of (commands fresh_shell) ''echo'' = Some EchoCommand"
    by (simp add: fresh_shell_def builtin_commands_def)
  have 6: "PreHook_run fresh_shell ''echo'' (filter (\<lambda>a. a \<noteq> []) (map entry_text [Str ''hi'']))
             = (None, fresh_shell)"
    by (simp add: PreHook_run_def fresh_shell_def)
  have 7: "execute EchoCommand (vs fresh_shell) (filter (\<lambda>a. a \<noteq> []) (map entry_text [Str ''hi'']))
             = (Inr ''hi'', vs fresh_shell, [''hi''])"
    by (simp add: EchoCommand_execute_def entry_text_def)
  have 8: "PostHook_run
             (fresh_shell\<lparr>vs := vs fresh_shell, journal := journal fresh_shell @ [ExecuteCall ''echo'']\<rparr>)
             ''echo'' [''hi''] ''hi''
           = (None, fresh_shell\<lparr>journal := [ExecuteCall ''echo'']\<rparr>)"
    by (simp add: PostHook_run_def fresh_shell_def)
  show ?thesis
    using success_returns_raw_output[where parse = parse_words and sh = fresh_shell
        and line = "''echo hi''" and name = "''echo''" and rest = "[Str ''hi'']"
        and c = EchoCommand, OF 1 2 3 4 5 6 7 8]
    by simp
qed

text \<open>
  The claim as stated fails: \<^verbatim>\<open>echo hi\<close> on the default shell returns \<^verbatim>\<open>hi\<close>, which does
  not start with \<^verbatim>\<open>bash: \<close>, and the journal holds no event.
\<close>

theorem plain_output_counterexample:
  "executeCommand parse_words fresh_shell ''echo hi''
     = (Inr ''hi'', fresh_shell\<lparr>journal := [ExecuteCall ''echo'']\<rparr>)
   \<and> (case fst (executeCommand parse_words fresh_shell ''echo hi'') of
         Inr out \<Rightarrow> \<not> startsWith out ''bash: ''
       | Inl err \<Rightarrow> False)
   \<and> emitted (journal (snd (executeCommand parse_words fresh_shell ''echo hi''))) = []"
  by (simp add: eval_defs EchoCommand_execute_def startsWith_def emitted_def)

section \<open>rm deletes nothing\<close>

lemma rm_flags_accepted:
  "list_all (\<lambda>a. a = ''-r'' \<or> a = ''-R'') (takeWhile is_flag args) \<Longrightarrow>
   \<exists>r'. rm_flags args r = (None, r', dropWhile is_flag args)"
  by (induction args arbitrary: r) (auto simp: is_flag_def)

text \<open>
  Claim C9.  For every state and every argument list that \<^verbatim>\<open>rm\<close> accepts, \<open>execute\<close>
  returns the empty string and leaves the state, the volume with it, as it was: no file
  and no directory is deleted.  The argument array is left without its leading flags.
\<close>

theorem rm_deletes_nothing:
  "rm_accepts args \<Longrightarrow>
   execute RmCommand s args = (Inr [], s, dropWhile is_flag args)"
proof -
  assume a: "rm_accepts args"
  then obtain r' where r: "rm_flags args False = (None, r', dropWhile is_flag args)"
    using rm_flags_accepted[of args False] by (auto simp: rm_accepts_def)
  from a have "args \<noteq> []" by (auto simp: rm_accepts_def)
  with a r show ?thesis by (simp add: RmCommand_execute_def rm_accepts_def)
qed

theorem rm_deletes_nothing_witness:
  "rm_accepts [''-r'', ''/tmp''] \<and>
   execute RmCommand
     \<lparr>host_cwd = ''/'', currentDirectory = ''/'',
      volume = [([''tmp''], Directory), ([''tmp'', ''f''], File ''x'')]\<rparr> [''-r'', ''/tmp'']
   = (Inr [],
      \<lparr>host_cwd = ''/'', currentDirectory = ''/'',
       volume = [([''tmp''], Directory), ([''tmp'', ''f''], File ''x'')]\<rparr>, [''/tmp''])"
proof -
  have h: "rm_accepts [''-r'', ''/tmp'']"
    by (simp add: rm_accepts_def is_flag_def startsWith_def)
  show ?thesis using h rm_deletes_nothing[OF h]
    by (simp add: is_flag_def startsWith_def)
qed

section \<open>A failing body runs no post-hook\<close>

text \<open>
  Whatever the body throws, the journal gains no call of a post-hook.
\<close>

lemma body_failure_runs_no_post_hook:
  assumes "\<not> isInvalidCommand line"
    and "extractRedirection line = (input, operator, file)"
    and "parse input = Str name # rest"
    and "name \<noteq> []"
    and "map_of (commands sh) name = Some c"
    and "PreHook_run sh name (filter (\<lambda>a. a \<noteq> []) (map entry_text rest)) = (None, sh1)"
    and "execute c (vs sh1) (filter (\<lambda>a. a \<noteq> []) (map entry_text rest)) = (Inl err, s', args')"
  shows "post_hook_calls (journal (snd (executeCommand parse sh line)))
           = post_hook_calls (journal sh)"
proof -
  have same: "commands sh1 = commands sh"
    using PreHook_run_frame[OF assms(6)] by simp
  have "executeCommand parse sh line
          = catch_error (sh1\<lparr>vs := s', journal := journal sh1 @ [ExecuteCall name]\<rparr>) err"
    using assms same
    by (simp add: executeCommand_def in_commands_def commands_get_registered run_command_def)
  then show ?thesis
    using PreHook_run_frame[OF assms(6)]
    by (simp add: catch_error_def resolved_def stderr_def Let_def post_hook_calls_def
        split: sum.splits)
qed

text \<open>
  When the body throws a value whose message can be read (an \<^verbatim>\<open>Error\<close>, or any value
  other than \<^verbatim>\<open>null\<close> and \<^verbatim>\<open>undefined\<close>), the promise of \<open>executeCommand\<close> resolves with
  the message, or the unknown-error message when there is none, behind the prefix
  \<^verbatim>\<open>bash: \<close>; exactly that message is emitted on \<^verbatim>\<open>stderr\<close>; and the journal gains no
  call of a post-hook.
\<close>

lemma body_failure_skips_post_hooks:
  assumes "\<not> isInvalidCommand line"
    and "extractRedirection line = (input, operator, file)"
    and "parse input = Str name # rest"
    and "name \<noteq> []"
    and "map_of (commands sh) name = Some c"
    and "PreHook_run sh name (filter (\<lambda>a. a \<noteq> []) (map entry_text rest)) = (None, sh1)"
    and "execute c (vs sh1) (filter (\<lambda>a. a \<noteq> []) (map entry_text rest)) = (Inl err, s', args')"
    and "err \<noteq> ThrownNull" and "err \<noteq> ThrownUndefined"
  shows "fst (executeCommand parse sh line)
           = Inr (''bash: '' @ (case err of JsError code message \<Rightarrow>
                                   if message = [] then ''An unknown error occurred'' else message
                                 | _ \<Rightarrow> ''An unknown error occurred''))
         \<and> post_hook_calls (journal (snd (executeCommand parse sh line)))
             = post_hook_calls (journal sh)
         \<and> emitted (journal (snd (executeCommand parse sh line)))
             = emitted (journal sh)
               @ [(Stderr, ''bash: '' @ (case err of JsError code message \<Rightarrow>
                                   if message = [] then ''An unknown error occurred'' else message
                                 | _ \<Rightarrow> ''An unknown error occurred''))]"
proof -
  have same: "commands sh1 = commands sh"
    using PreHook_run_frame[OF assms(6)] by simp
  have "executeCommand parse sh line
          = catch_error (sh1\<lparr>vs := s', journal := journal sh1 @ [ExecuteCall name]\<rparr>) err"
    using assms same
    by (simp add: executeCommand_def in_commands_def commands_get_registered run_command_def)
  then show ?thesis
    using PreHook_run_frame[OF assms(6)] assms(8,9)
    by (cases err)
       (simp_all add: catch_error_def read_message_def or_unknown_def ERR_UNKNOWN_def
          resolved_def stderr_def Let_def emitted_def post_hook_calls_def)
qed

text \<open>
  \<^verbatim>\<open>cat /missing\<close> on the default shell with a post-hook registered for \<^verbatim>\<open>cat\<close>: the body
  throws, the result and the one event are the message of the error, and no post-hook
  is called.
\<close>

lemma cat_missing_reports:
  "fst (executeCommand parse_words hooked_shell ''cat /missing'')
     = Inr ''bash: cd: missing: no such file or directory''
   \<and> post_hook_calls (journal (snd (executeCommand parse_words hooked_shell ''cat /missing''))) = []
   \<and> emitted (journal (snd (executeCommand parse_words hooked_shell ''cat /missing'')))
       = [(Stderr, ''bash: cd: missing: no such file or directory'')]"
  by (simp add: eval_defs hooked_shell_def PostHook_register_def CatCommand_execute_def
      cat_read_def cat_rethrow_def fs_defs ERR_NO_SUCH_DIRECTORY_def emitted_def
      post_hook_calls_def)

text \<open>
  Claim C6, at the input where the code leaves it.  On \<open>throwing_shell\<close> the command
  \<^verbatim>\<open>boom\<close> is registered with a post-hook, and its body throws \<^verbatim>\<open>undefined\<close>.  No
  post-hook is called, as claimed.  But the handler of \<open>executeCommand\<close> reads
  \<^verbatim>\<open>(err as Error).message\<close> of the thrown value, which throws a \<^verbatim>\<open>TypeError\<close> inside
  the handler: the promise of \<open>executeCommand\<close> rejects with that error instead of
  resolving with a \<^verbatim>\<open>bash: \<close> message, and nothing is emitted on \<^verbatim>\<open>stderr\<close>.
\<close>

theorem thrown_undefined_escapes_handler:
  "map_of (commands throwing_shell) ''boom'' = Some throwing_command
   \<and> postHook throwing_shell ''boom'' \<noteq> None
   \<and> execute throwing_command (vs throwing_shell) [] = (Inl ThrownUndefined, vs throwing_shell, [])
   \<and> fst (executeCommand parse_words throwing_shell ''boom'')
       = Inl (JsError None (''Cannot read properties of undefined (reading ''
                @ [CHR 39] @ ''message'' @ [CHR 39] @ '')''))
   \<and> emitted (journal (snd (executeCommand parse_words throwing_shell ''boom''))) = []
   \<and> post_hook_calls (journal (snd (executeCommand parse_words throwing_shell ''boom''))) = []"
  by (simp add: eval_defs throwing_shell_def throwing_command_def registerCommand_def
      PostHook_register_def emitted_def post_hook_calls_def)

text \<open>
  A failing pre-hook or post-hook reaches the same handler, with the same two outcomes.
\<close>

lemma pre_hook_failure_is_stderr:
  assumes "\<not> isInvalidCommand line"
    and "extractRedirection line = (input, operator, file)"
    and "parse input = Str name # rest"
    and "name \<noteq> []"
    and "in_commands (commands sh) name"
    and "PreHook_run sh name (filter (\<lambda>a. a \<noteq> []) (map entry_text rest)) = (Some err, sh1)"
  shows "executeCommand parse sh line = catch_error sh1 err"
  using assms by (simp add: executeCommand_def run_command_def)

lemma post_hook_failure_is_stderr:
  assumes "\<not> isInvalidCommand line"
    and "extractRedirection line = (input, operator, file)"
    and "parse input = Str name # rest"
    and "name \<noteq> []"
    and "map_of (commands sh) name = Some c"
    and "PreHook_run sh name (filter (\<lambda>a. a \<noteq> []) (map entry_text rest)) = (None, sh1)"
    and "execute c (vs sh1) (filter (\<lambda>a. a \<noteq> []) (map entry_text rest)) = (Inr output, s', args')"
    and "PostHook_run (sh1\<lparr>vs := s', journal := journal sh1 @ [ExecuteCall name]\<rparr>) name args' output
           = (Some err, sh3)"
  shows "executeCommand parse sh line = catch_error sh3 err"
proof -
  have same: "commands sh1 = commands sh"
    using PreHook_run_frame[OF assms(6)] by simp
  show ?thesis
    using assms same
    by (simp add: executeCommand_def in_commands_def commands_get_registered run_command_def)
qed

lemma catch_error_message:
  "err \<noteq> ThrownNull \<Longrightarrow> err \<noteq> ThrownUndefined \<Longrightarrow>
   catch_error sh err
     = resolved (stderr sh (case err of JsError code message \<Rightarrow>
                                   if message = [] then ''An unknown error occurred'' else message
                                 | _ \<Rightarrow> ''An unknown error occurred''))"
  by (cases err) (simp_all add: catch_error_def read_message_def or_unknown_def ERR_UNKNOWN_def)

lemma catch_error_nullish:
  "err = ThrownNull \<or> err = ThrownUndefined \<Longrightarrow>
   \<exists>typeError. catch_error sh err = (Inl typeError, sh)"
  by (auto simp: catch_error_def read_message_def)

section \<open>cd to a missing directory\<close>

lemma changeDirectory_missing:
  "node_at (volume s) (steps (path_resolve (host_cwd s) (currentDirectory s) newPath)) = None \<Longrightarrow>
   changeDirectory s newPath = (ERR_NO_SUCH_DIRECTORY newPath, s)"
  by (simp add: changeDirectory_def fs_lstat_def)

lemma changeDirectory_not_a_directory:
  "node_at (volume s) (steps (path_resolve (host_cwd s) (currentDirectory s) newPath)) = Some (File c) \<Longrightarrow>
   changeDirectory s newPath = (ERR_NOT_A_DIRECTORY newPath, s)"
  by (simp add: changeDirectory_def fs_lstat_def isDirectory_def)

lemma changeDirectory_success:
  "node_at (volume s) (steps (path_resolve (host_cwd s) (currentDirectory s) newPath)) = Some Directory \<Longrightarrow>
   changeDirectory s newPath =
     (path_resolve (host_cwd s) (currentDirectory s) newPath,
      s\<lparr>currentDirectory := path_resolve (host_cwd s) (currentDirectory s) newPath\<rparr>)"
  by (simp add: changeDirectory_def fs_lstat_def isDirectory_def Let_def)

lemma CdCommand_never_reports:
  "args \<noteq> [] \<Longrightarrow> fst (CdCommand_execute s args) = Inr []"
  by (cases args) (simp_all add: CdCommand_execute_def typeof_is_string_def split: prod.splits)

text \<open>
  Claim C3, at the input where the code leaves it.  On the default shell
  \<open>changeDirectory\<close> answers \<^verbatim>\<open>/does/not/exist\<close> with the NoSuchDirectory message and
  leaves the state as it was, but it returns the message instead of throwing it, the
  guard of \<^verbatim>\<open>CdCommand.execute\<close> never fires, and the result of the invocation
  \<^verbatim>\<open>cd /does/not/exist\<close> is the empty string.
\<close>

theorem cd_missing_directory_returns_empty:
  "changeDirectory (vs fresh_shell) ''/does/not/exist''
     = (ERR_NO_SUCH_DIRECTORY ''/does/not/exist'', vs fresh_shell)
   \<and> executeCommand parse_words fresh_shell ''cd /does/not/exist''
       = (Inr [], fresh_shell\<lparr>journal := [ExecuteCall ''cd'']\<rparr>)"
  by (simp add: eval_defs fs_defs changeDirectory_def CdCommand_execute_def
      typeof_is_string_def)

section \<open>Names with upper-case letters\<close>

lemma uppercase_token_not_found:
  assumes "\<not> isInvalidCommand line"
    and "extractRedirection line = (input, operator, file)"
    and "parse input = Str name # rest"
    and "toLowerCase name \<noteq> name"
    and "\<forall>k \<in> fst ` set (commands sh). toLowerCase k = k"
    and "name \<notin> set Object_prototype_keys"
  shows "executeCommand parse sh line = resolved (stderr sh (ERR_CMD_NOT_FOUND name))"
proof -
  have "name \<notin> fst ` set (commands sh)" using assms(4,5) by auto
  then have "map_of (commands sh) name = None" by (simp add: map_of_eq_None_iff)
  moreover have "name \<noteq> []" using assms(4) by (auto simp: toLowerCase_def)
  ultimately show ?thesis
    using assms by (simp add: executeCommand_def in_commands_def commands_get_def)
qed

lemma ECHO_not_found:
  "executeCommand parse_words fresh_shell ''ECHO hi''
     = resolved (stderr fresh_shell (ERR_CMD_NOT_FOUND ''ECHO''))"
  by (simp add: eval_defs)

text \<open>
  Claim C10, at the input where the code leaves it.  The first token \<^verbatim>\<open>toString\<close> has an
  upper-case letter and is not registered, yet \<^verbatim>\<open>'toString' in this.commands\<close> holds
  through \<^verbatim>\<open>Object.prototype\<close>: the shell calls \<^verbatim>\<open>execute\<close> on the inherited function
  and reports the \<^verbatim>\<open>TypeError\<close>, not CommandNotFound.
\<close>

theorem inherited_name_escapes_command_not_found:
  "toLowerCase ''toString'' \<noteq> ''toString''
   \<and> map_of (commands fresh_shell) ''toString'' = None
   \<and> executeCommand parse_words fresh_shell ''toString''
       = resolved (stderr fresh_shell ''commandInstance.execute is not a function'')
   \<and> fst (executeCommand parse_words fresh_shell ''toString'')
       \<noteq> Inr (''bash: '' @ ERR_CMD_NOT_FOUND ''toString'')"
  by (simp add: eval_defs toLowerCase_def lower_char_def upper_chars_def lower_chars_def
      ERR_CMD_NOT_FOUND_def)

section \<open>Redirection\<close>

lemma node_at_update:
  "k \<noteq> [] \<Longrightarrow> node_at (AList.update k n v) q = (if q = k then Some n else node_at v q)"
  by (simp add: node_at_def update_conv')

lemma node_at_root [simp]: "node_at v [] = Some Directory"
  by (simp add: node_at_def)

lemma node_at_File_nonempty: "node_at v p = Some (File c) \<Longrightarrow> p \<noteq> []"
  by (auto simp: node_at_def split: if_splits)

lemma fst_stderr [simp]: "fst (stderr sh m) = ''bash: '' @ m"
  by (simp add: stderr_def Let_def)

lemma vs_stderr [simp]: "vs (snd (stderr sh m)) = vs sh"
  by (simp add: stderr_def Let_def)

lemma fst_stdout [simp]: "fst (stdout sh m) = ''bash: '' @ m"
  by (simp add: stdout_def Let_def)

lemma vs_stdout [simp]: "vs (snd (stdout sh m)) = vs sh"
  by (simp add: stdout_def Let_def)

text \<open>
  \<open>processRedirection\<close>, called with any arguments.  The write waits on the existence
  of the resolved target.  A missing target gives the PermissionDenied message and no
  write.  On a regular file \<^verbatim>\<open>>\<close> replaces the content by the output and a new line,
  \<^verbatim>\<open>>>\<close> appends them, no other path changes, and the result is the empty success
  message \<^verbatim>\<open>bash: \<close>.  Any other operator gives the InvalidOperator message and no
  write.  On a directory, which passes the check, the write fails and the result is the
  error message behind the command name, with no write.
\<close>

lemma processRedirection_cases:
  "(node_at (volume (vs sh)) (steps (redirection_target sh targetFile)) = None \<longrightarrow>
      fst (processRedirection sh out operator targetFile commandName)
        = ''bash: '' @ ERR_PERMISSION_DENIED (redirection_target sh targetFile)
      \<and> vs (snd (processRedirection sh out operator targetFile commandName)) = vs sh)
   \<and> (node_at (volume (vs sh)) (steps (redirection_target sh targetFile)) = Some (File old)
        \<and> operator = ''>'' \<longrightarrow>
      fst (processRedirection sh out operator targetFile commandName) = ''bash: ''
      \<and> fs_readFile (volume (vs (snd (processRedirection sh out operator targetFile commandName))))
            (redirection_target sh targetFile) = Inr (out @ newline)
      \<and> (\<forall>q. q \<noteq> steps (redirection_target sh targetFile) \<longrightarrow>
            node_at (volume (vs (snd (processRedirection sh out operator targetFile commandName)))) q
              = node_at (volume (vs sh)) q))
   \<and> (node_at (volume (vs sh)) (steps (redirection_target sh targetFile)) = Some (File old)
        \<and> operator = ''>>'' \<longrightarrow>
      fst (processRedirection sh out operator targetFile commandName) = ''bash: ''
      \<and> fs_readFile (volume (vs (snd (processRedirection sh out operator targetFile commandName))))
            (redirection_target sh targetFile) = Inr (old @ out @ newline)
      \<and> (\<forall>q. q \<noteq> steps (redirection_target sh targetFile) \<longrightarrow>
            node_at (volume (vs (snd (processRedirection sh out operator targetFile commandName)))) q
              = node_at (volume (vs sh)) q))
   \<and> (node_at (volume (vs sh)) (steps (redirection_target sh targetFile)) = Some n
        \<and> operator \<noteq> ''>'' \<and> operator \<noteq> ''>>'' \<longrightarrow>
      fst (processRedirection sh out operator targetFile commandName)
        = ''bash: '' @ ERR_INVALID_OPERATOR operator
      \<and> vs (snd (processRedirection sh out operator targetFile commandName)) = vs sh)
   \<and> (node_at (volume (vs sh)) (steps (redirection_target sh targetFile)) = Some Directory
        \<and> (operator = ''>'' \<or> operator = ''>>'') \<longrightarrow>
      fst (processRedirection sh out operator targetFile commandName)
        = ''bash: '' @ commandName @ '': ''
            @ fs_message (createError EISDIR ''open'' (redirection_target sh targetFile))
      \<and> vs (snd (processRedirection sh out operator targetFile commandName)) = vs sh)"
proof (intro conjI impI)
  assume "node_at (volume (vs sh)) (steps (redirection_target sh targetFile)) = None"
  then show "fst (processRedirection sh out operator targetFile commandName)
        = ''bash: '' @ ERR_PERMISSION_DENIED (redirection_target sh targetFile)"
    and "vs (snd (processRedirection sh out operator targetFile commandName)) = vs sh"
    by (simp_all add: processRedirection_def redirection_target_def fs_access_def)
next
  assume a: "node_at (volume (vs sh)) (steps (redirection_target sh targetFile)) = Some (File old)
        \<and> operator = ''>''"
  then have ne: "steps (redirection_target sh targetFile) \<noteq> []"
    by (auto dest: node_at_File_nonempty)
  from a have r: "processRedirection sh out operator targetFile commandName
      = stdout (sh\<lparr>vs := (vs sh)\<lparr>volume := AList.update (steps (redirection_target sh targetFile))
                   (File (out @ newline)) (volume (vs sh))\<rparr>\<rparr>) []"
    by (simp add: processRedirection_def redirection_target_def fs_access_def fs_writeFile_def
        open_for_write_def newline_def)
  show "fst (processRedirection sh out operator targetFile commandName) = ''bash: ''"
    by (simp add: r)
  show "fs_readFile (volume (vs (snd (processRedirection sh out operator targetFile commandName))))
            (redirection_target sh targetFile) = Inr (out @ newline)"
    using ne by (simp add: r fs_readFile_def node_at_update)
  show "\<forall>q. q \<noteq> steps (redirection_target sh targetFile) \<longrightarrow>
            node_at (volume (vs (snd (processRedirection sh out operator targetFile commandName)))) q
              = node_at (volume (vs sh)) q"
    using ne by (simp add: r node_at_update)
next
  assume a: "node_at (volume (vs sh)) (steps (redirection_target sh targetFile)) = Some (File old)
        \<and> operator = ''>>''"
  then have ne: "steps (redirection_target sh targetFile) \<noteq> []"
    by (auto dest: node_at_File_nonempty)
  from a have r: "processRedirection sh out operator targetFile commandName
      = stdout (sh\<lparr>vs := (vs sh)\<lparr>volume := AList.update (steps (redirection_target sh targetFile))
                   (File (old @ out @ newline)) (volume (vs sh))\<rparr>\<rparr>) []"
    by (simp add: processRedirection_def redirection_target_def fs_access_def fs_appendFile_def
        open_for_write_def newline_def)
  show "fst (processRedirection sh out operator targetFile commandName) = ''bash: ''"
    by (simp add: r)
  show "fs_readFile (volume (vs (snd (processRedirection sh out operator targetFile commandName))))
            (redirection_target sh targetFile) = Inr (old @ out @ newline)"
    using ne by (simp add: r fs_readFile_def node_at_update)
  show "\<forall>q. q \<noteq> steps (redirection_target sh targetFile) \<longrightarrow>
            node_at (volume (vs (snd (processRedirection sh out operator targetFile commandName)))) q
              = node_at (volume (vs sh)) q"
    using ne by (simp add: r node_at_update)
next
  assume "node_at (volume (vs sh)) (steps (redirection_target sh targetFile)) = Some n
        \<and> operator \<noteq> ''>'' \<and> operator \<noteq> ''>>''"
  then show "fst (processRedirection sh out operator targetFile commandName)
        = ''bash: '' @ ERR_INVALID_OPERATOR operator"
    and "vs (snd (processRedirection sh out operator targetFile commandName)) = vs sh"
    by (simp_all add: processRedirection_def redirection_target_def fs_access_def)
next
  assume a: "node_at (volume (vs sh)) (steps (redirection_target sh targetFile)) = Some Directory
        \<and> (operator = ''>'' \<or> operator = ''>>'')"
  then show "fst (processRedirection sh out operator targetFile commandName)
        = ''bash: '' @ commandName @ '': ''
            @ fs_message (createError EISDIR ''open'' (redirection_target sh targetFile))"
    and "vs (snd (processRedirection sh out operator targetFile commandName)) = vs sh"
    by (auto simp add: processRedirection_def redirection_target_def fs_access_def
        fs_writeFile_def fs_appendFile_def open_for_write_def or_unknown_def
        createError_def fs_message_def errno_text_def)
qed

lemma file_shell_target:
  "redirection_target file_shell ''/tmp/out.txt'' = ''/tmp/out.txt''
   \<and> steps ''/tmp/out.txt'' = [''tmp'', ''out.txt'']
   \<and> redirection_target file_shell ''/tmp'' = ''/tmp''
   \<and> steps ''/tmp'' = [''tmp'']
   \<and> redirection_target fresh_shell ''/tmp/out.txt'' = ''/tmp/out.txt''
   \<and> volume (vs file_shell) = [([''tmp''], Directory), ([''tmp'', ''out.txt''], File ''old'')]
   \<and> volume (vs fresh_shell) = []"
  by (simp add: redirection_target_def file_shell_def fresh_shell_def fs_defs emptyVolume_def)

text \<open>
  The five cases on concrete calls.  The InvalidOperator message takes a direct call of
  \<open>processRedirection\<close>: no line makes \<open>executeCommand\<close> pass another operator than
  \<^verbatim>\<open>>\<close> and \<^verbatim>\<open>>>\<close> (\<open>redirection_operator\<close> below).
\<close>

lemma processRedirection_examples:
  "(fst (processRedirection fresh_shell ''hi'' ''>'' ''/tmp/out.txt'' ''echo'')
      = ''bash: /tmp/out.txt: permission denied''
    \<and> vs (snd (processRedirection fresh_shell ''hi'' ''>'' ''/tmp/out.txt'' ''echo'')) = vs fresh_shell)
   \<and> (fst (processRedirection file_shell ''hi'' ''>'' ''/tmp/out.txt'' ''echo'') = ''bash: ''
    \<and> fs_readFile (volume (vs (snd (processRedirection file_shell ''hi'' ''>'' ''/tmp/out.txt'' ''echo''))))
          ''/tmp/out.txt'' = Inr (''hi'' @ newline)
    \<and> node_at (volume (vs (snd (processRedirection file_shell ''hi'' ''>'' ''/tmp/out.txt'' ''echo''))))
          [''tmp''] = Some Directory)
   \<and> (fst (processRedirection file_shell ''hi'' ''>>'' ''/tmp/out.txt'' ''echo'') = ''bash: ''
    \<and> fs_readFile (volume (vs (snd (processRedirection file_shell ''hi'' ''>>'' ''/tmp/out.txt'' ''echo''))))
          ''/tmp/out.txt'' = Inr (''oldhi'' @ newline)
    \<and> node_at (volume (vs (snd (processRedirection file_shell ''hi'' ''>>'' ''/tmp/out.txt'' ''echo''))))
          [''tmp''] = Some Directory)
   \<and> (fst (processRedirection file_shell ''hi'' ''<'' ''/tmp/out.txt'' ''echo'')
      = ''bash: <: invalid operator''
    \<and> vs (snd (processRedirection file_shell ''hi'' ''<'' ''/tmp/out.txt'' ''echo'')) = vs file_shell)
   \<and> (fst (processRedirection file_shell ''hi'' ''>'' ''/tmp'' ''echo'')
      = ''bash: echo: EISDIR: illegal operation on a directory, open '' @ [CHR 39] @ ''/tmp'' @ [CHR 39]
    \<and> vs (snd (processRedirection file_shell ''hi'' ''>'' ''/tmp'' ''echo'')) = vs file_shell)"
proof -
  note t = file_shell_target
  have 1: "node_at (volume (vs fresh_shell)) (steps (redirection_target fresh_shell ''/tmp/out.txt'')) = None"
    by (simp add: t node_at_def)
  have 2: "node_at (volume (vs file_shell)) (steps (redirection_target file_shell ''/tmp/out.txt''))
             = Some (File ''old'')"
    by (simp add: t node_at_def)
  have 3: "node_at (volume (vs file_shell)) (steps (redirection_target file_shell ''/tmp'')) = Some Directory"
    by (simp add: t node_at_def)
  have q: "[''tmp''] \<noteq> steps (redirection_target file_shell ''/tmp/out.txt'')"
    by (simp add: t)
  show ?thesis
    using 1 2 3 q
      processRedirection_cases[where sh = fresh_shell and targetFile = "''/tmp/out.txt''" and out = "''hi''"
        and operator = "''>''" and commandName = "''echo''"]
      processRedirection_cases[where sh = file_shell and targetFile = "''/tmp/out.txt''" and out = "''hi''"
        and operator = "''>''" and commandName = "''echo''" and old = "''old''"]
      processRedirection_cases[where sh = file_shell and targetFile = "''/tmp/out.txt''" and out = "''hi''"
        and operator = "''>>''" and commandName = "''echo''" and old = "''old''"]
      processRedirection_cases[where sh = file_shell and targetFile = "''/tmp/out.txt''" and out = "''hi''"
        and operator = "''<''" and commandName = "''echo''" and n = "File ''old''"]
      processRedirection_cases[where sh = file_shell and targetFile = "''/tmp''" and out = "''hi''"
        and operator = "''>''" and commandName = "''echo''"]
    by (simp add: t ERR_PERMISSION_DENIED_def ERR_INVALID_OPERATOR_def createError_def
        fs_message_def errno_text_def)
qed

subsection \<open>Which lines are redirected\<close>







text \<open>
  Without white space between the operator and the target the suffix is matched and
  cut from the line, but no target is found: nothing is checked or written, and the
  output comes back as it is.
\<close>

lemma unspaced_redirection_is_dropped:
  "regex_match ''echo hi >/tmp/out.txt'' = Some (''echo hi'', '' >/tmp/out.txt'')
   \<and> extractRedirection ''echo hi >/tmp/out.txt'' = (''echo hi'', Some ''>/tmp/out.txt'', None)
   \<and> executeCommand parse_words file_shell ''echo hi >/tmp/out.txt''
       = (Inr ''hi'', file_shell\<lparr>journal := [ExecuteCall ''echo'']\<rparr>)"
  by (simp add: eval_defs file_shell_def EchoCommand_execute_def)

subsection \<open>A redirected invocation\<close>

lemma emitted_single [simp]: "emitted [Emitted ch m] = [(ch, m)]"
  by (simp add: emitted_def)

text \<open>
  A line with a redirection whose command succeeds ends in \<open>processRedirection\<close>, called
  with the output of the body and on the state the body and the hooks have left.
\<close>

lemma redirected_invocation_is_processRedirection:
  assumes "\<not> isInvalidCommand line"
    and "extractRedirection line = (input, Some operator, Some targetFile)"
    and "parse input = Str name # rest"
    and "name \<noteq> []"
    and "map_of (commands sh) name = Some c"
    and "PreHook_run sh name (filter (\<lambda>a. a \<noteq> []) (map entry_text rest)) = (None, sh1)"
    and "execute c (vs sh1) (filter (\<lambda>a. a \<noteq> []) (map entry_text rest)) = (Inr out, s', args')"
    and "PostHook_run (sh1\<lparr>vs := s', journal := journal sh1 @ [ExecuteCall name]\<rparr>) name args' out
           = (None, sh3)"
  shows "executeCommand parse sh line
           = resolved (processRedirection sh3 out operator targetFile name)"
proof -
  have same: "commands sh1 = commands sh"
    using PreHook_run_frame[OF assms(6)] by simp
  show ?thesis
    using assms same
    by (simp add: executeCommand_def in_commands_def commands_get_registered run_command_def)
qed





section \<open>echo into a file, then cat\<close>

lemma prepared_shell_volume:
  "volume (vs prepared_shell) = [([''tmp''], Directory), ([''tmp'', ''out.txt''], File [])]"
  by (simp add: prepared_shell_def eval_defs fs_defs MkdirCommand_execute_def startsWith_def
      TouchCommand_execute_def createFile_def)

text \<open>
  Claim C4, as the code has it.  When \<^verbatim>\<open>/tmp/out.txt\<close> is already a regular file of the
  volume, and \<^verbatim>\<open>echo\<close> and \<^verbatim>\<open>cat\<close> are registered without hooks,
  \<^verbatim>\<open>echo hello world > /tmp/out.txt\<close> returns the empty success message and
  \<^verbatim>\<open>cat /tmp/out.txt\<close> then returns \<^verbatim>\<open>hello world\<close> and a new line.
\<close>

theorem echo_redirect_then_cat:
  assumes "map_of (commands sh) ''echo'' = Some EchoCommand"
    and "map_of (commands sh) ''cat'' = Some CatCommand"
    and "preHook sh ''echo'' = None" and "postHook sh ''echo'' = None"
    and "preHook sh ''cat'' = None" and "postHook sh ''cat'' = None"
    and "node_at (volume (vs sh)) [''tmp'', ''out.txt''] = Some (File old)"
  shows "fst (executeCommand parse_words sh ''echo hello world > /tmp/out.txt'') = Inr ''bash: ''
         \<and> fst (executeCommand parse_words
                  (snd (executeCommand parse_words sh ''echo hello world > /tmp/out.txt''))
                  ''cat /tmp/out.txt'')
             = Inr (''hello world'' @ newline)"
proof -
  let ?v' = "AList.update [''tmp'', ''out.txt''] (File (''hello world'' @ newline)) (volume (vs sh))"
  let ?sh' = "sh\<lparr>vs := (vs sh)\<lparr>volume := ?v'\<rparr>,
                  journal := journal sh @ [ExecuteCall ''echo'', Emitted Stdout ''bash: '']\<rparr>"
  have p: "path_resolve h c ''/tmp/out.txt'' = ''/tmp/out.txt''" for h c
    by (simp add: fs_defs)
  have s: "steps ''/tmp/out.txt'' = [''tmp'', ''out.txt'']"
    by (simp add: fs_defs)
  have 1: "executeCommand parse_words sh ''echo hello world > /tmp/out.txt'' = (Inr ''bash: '', ?sh')"
    using assms
    by (simp add: executeCommand_def isInvalidCommand_def trim_def is_space_def
        is_line_terminator_def extractRedirection_def tail_matches_def target_ok_def or_null_def
        parse_words_def entry_text_def in_commands_def commands_get_def run_command_def
        PreHook_run_def PostHook_run_def EchoCommand_execute_def processRedirection_def p s
        fs_access_def fs_writeFile_def open_for_write_def stdout_def Let_def newline_def
        resolved_def)
  have n: "node_at ?v' [''tmp'', ''out.txt''] = Some (File (''hello world'' @ newline))"
    by (simp add: node_at_update)
  have 2: "fst (executeCommand parse_words ?sh' ''cat /tmp/out.txt'')
             = Inr (''hello world'' @ newline)"
    using assms n
    by (simp add: executeCommand_def isInvalidCommand_def trim_def is_space_def
        is_line_terminator_def extractRedirection_def tail_matches_def target_ok_def or_null_def
        parse_words_def entry_text_def in_commands_def commands_get_def run_command_def
        PreHook_run_def PostHook_run_def CatCommand_execute_def cat_read_def resolvePath_def p s
        fs_lstat_def fs_readFile_def isDirectory_def Let_def)
  show ?thesis using 2 by (simp add: 1)
qed

theorem echo_redirect_then_cat_witness:
  "fst (executeCommand parse_words prepared_shell ''echo hello world > /tmp/out.txt'')
     = Inr ''bash: ''
   \<and> fst (executeCommand parse_words
            (snd (executeCommand parse_words prepared_shell ''echo hello world > /tmp/out.txt''))
            ''cat /tmp/out.txt'')
       = Inr (''hello world'' @ newline)"
proof -
  have c: "commands prepared_shell = builtin_commands"
    and h: "preHook prepared_shell = Map.empty" "postHook prepared_shell = Map.empty"
    by (simp_all add: prepared_shell_def eval_defs fs_defs MkdirCommand_execute_def startsWith_def
      TouchCommand_execute_def createFile_def)
  have 1: "map_of (commands prepared_shell) ''echo'' = Some EchoCommand"
    and 2: "map_of (commands prepared_shell) ''cat'' = Some CatCommand"
    by (simp_all add: c builtin_commands_def)
  have 3: "node_at (volume (vs prepared_shell)) [''tmp'', ''out.txt''] = Some (File [])"
    by (simp add: prepared_shell_volume node_at_def)
  show ?thesis
    using echo_redirect_then_cat[where sh = prepared_shell and old = "[]", OF 1 2 _ _ _ _ 3]
    by (simp add: h)
qed

text \<open>
  The claim as stated fails: on the fresh volume the target does not exist, the
  redirection is refused with the PermissionDenied message, nothing is written, and
  \<^verbatim>\<open>cat\<close> reports that there is no such file.
\<close>

theorem fresh_volume_redirect_counterexample:
  "fst (executeCommand parse_words fresh_shell ''echo hello world > /tmp/out.txt'')
     = Inr ''bash: /tmp/out.txt: permission denied''
   \<and> volume (vs (snd (executeCommand parse_words fresh_shell ''echo hello world > /tmp/out.txt'')))
       = emptyVolume
   \<and> fst (executeCommand parse_words
            (snd (executeCommand parse_words fresh_shell ''echo hello world > /tmp/out.txt''))
            ''cat /tmp/out.txt'')
       = Inr ''bash: cd: out.txt: no such file or directory''
   \<and> fst (executeCommand parse_words
            (snd (executeCommand parse_words fresh_shell ''echo hello world > /tmp/out.txt''))
            ''cat /tmp/out.txt'')
       \<noteq> Inr (''hello world'' @ newline)"
  by (simp add: eval_defs fs_defs EchoCommand_execute_def processRedirection_def
      CatCommand_execute_def cat_read_def cat_rethrow_def ERR_PERMISSION_DENIED_def
      ERR_NO_SUCH_DIRECTORY_def newline_def)

section \<open>The isolate loses what the console captured\<close>

lemma executeFunction_stdout_empty: "res_stdout (fst (executeFunction run)) = []"
  by (simp add: executeFunction_def setupIsolate_def trim_def Let_def split: script_end.splits)

lemma executeFunction_reports_error:
  "ending run = Threw (JsError code message) \<Longrightarrow>
   res_stderr (fst (executeFunction run)) = message"
  by (simp add: executeFunction_def Let_def)

lemma executeFunction_reports_timeout:
  "ending run = TimedOut \<Longrightarrow>
   res_stderr (fst (executeFunction run)) = ''Script execution timed out.''"
  by (simp add: executeFunction_def Let_def)

text \<open>
  Claim C2, at the input where the code leaves it.  The script logs \<^verbatim>\<open>a\<close> through the
  bridged console and then throws \<^verbatim>\<open>Error('boom')\<close>.  The error is caught and returned
  as \<^verbatim>\<open>stderr\<close>, but \<^verbatim>\<open>stdout\<close> is empty although the captured variable holds the
  line: \<open>executeFunction\<close> reads the copy of the variable that \<open>setupIsolate\<close>
  returned before the script ran.
\<close>

theorem isolate_drops_captured_stdout:
  "executeFunction \<lparr>calls = [Console_log [''a'']], ending = Threw (JsError None ''boom'')\<rparr>
     = (\<lparr>res_stdout = [], res_stderr = ''boom''\<rparr>,
        \<lparr>output_cell = ''a'' @ [CHR 0x0A], errorOutput_cell = []\<rparr>)"
  by (simp add: executeFunction_def setupIsolate_def consoleRef_def trim_def Let_def)

section \<open>Construction does not wait for the import\<close>

lemma constructor_completes:
  "opt_serializedVolume options = None \<Longrightarrow>
   \<exists>c. VirtualShell_constructor host options (Inr files) load = Inr c
       \<and> commands (shell_returned c) = []"
  by (simp add: VirtualShell_constructor_def Let_def split: prod.splits)

text \<open>
  Claim C8, at the input where the code leaves it.  The commands directory holds
  \<^verbatim>\<open>bad-command.js\<close>, whose module exports no function.  The promise of
  \<open>importCommandModules\<close> is rejected with InvalidCommandClass, but the constructor
  has dropped it: construction completes and returns a shell with an empty registry.
\<close>

theorem invalid_module_does_not_stop_construction:
  "VirtualShell_constructor ''/app''
     \<lparr>opt_serializedVolume = None, opt_currentDirectory = None, opt_user = None\<rparr>
     (Inr [''bad-command.js'']) (\<lambda>url. Inr [Other_value])
   = Inr \<lparr>shell_returned =
            \<lparr>vs = \<lparr>host_cwd = ''/app'', currentDirectory = ''/'', volume = emptyVolume\<rparr>,
             user = ''guest'', commands = [], preHook = Map.empty, postHook = Map.empty,
             journal = []\<rparr>,
          import_promise =
            Some (throw_Error (ERR_INVALID_COMMAND_CLASS ''/app/commands/bad-command.js'')),
          shell_settled =
            \<lparr>vs = \<lparr>host_cwd = ''/app'', currentDirectory = ''/'', volume = emptyVolume\<rparr>,
             user = ''guest'', commands = [], preHook = Map.empty, postHook = Map.empty,
             journal = []\<rparr>\<rparr>"
  by (simp add: VirtualShell_constructor_def Let_def endsWith_def fs_defs is_function_def
      or_default_def Object_assign_def)

lemma class_extending_BaseCommand_is_rejected:
  "\<not> prototype_is_Function_prototype k \<Longrightarrow> \<not> isValidCommand (Function_value k)"
  by (simp add: isValidCommand_def)

section \<open>Paths and their segments\<close>

lemma split_on_nonempty [simp]: "split_on d s \<noteq> []"
  by (induction s) (auto split: list.splits)

lemma split_on_no_separator: "w \<in> set (split_on d s) \<Longrightarrow> d \<notin> set w"
proof (induction s arbitrary: w)
  case Nil
  then show ?case by simp
next
  case (Cons c cs)
  show ?case
  proof (cases "c = d")
    case True
    with Cons show ?thesis by auto
  next
    case False
    obtain x xs where sp: "split_on d cs = x # xs"
      by (cases "split_on d cs") auto
    with Cons False show ?thesis by auto
  qed
qed

lemma normalize_step_valid:
  "list_all valid_name st \<Longrightarrow> CHR ''/'' \<notin> set seg \<Longrightarrow> list_all valid_name (normalize_step st seg)"
  by (auto simp: normalize_step_def valid_name_def list_all_iff dest: in_set_butlastD)

lemma foldl_normalize_valid:
  "list_all valid_name st \<Longrightarrow> \<forall>w \<in> set segs. CHR ''/'' \<notin> set w \<Longrightarrow>
   list_all valid_name (foldl normalize_step st segs)"
  by (induction segs arbitrary: st) (auto simp: normalize_step_valid)

lemma steps_valid: "list_all valid_name (steps filename)"
  unfolding steps_def normalize_segments_def
  by (rule foldl_normalize_valid) (auto dest: split_on_no_separator)

lemma foldl_normalize_names:
  "list_all valid_name p \<Longrightarrow> foldl normalize_step st p = st @ p"
  by (induction p arbitrary: st) (auto simp: normalize_step_def valid_name_def)

lemma split_on_join:
  "p \<noteq> [] \<Longrightarrow> \<forall>w \<in> set p. d \<notin> set w \<Longrightarrow> split_on d (join [d] p) = p"
proof (induction "[d]" p rule: join.induct)
  case 1
  then show ?case by simp
next
  case (2 x)
  have "d \<notin> set x \<Longrightarrow> split_on d x = [x]" for x
    by (induction x) auto
  with 2 show ?case by simp
next
  case (3 x y ys)
  have app: "d \<notin> set x \<Longrightarrow> split_on d (x @ d # r) = x # split_on d r" for x r
    by (induction x) auto
  from 3 show ?case by (simp add: app)
qed

lemma steps_render_path: "list_all valid_name p \<Longrightarrow> steps (render_path p) = p"
proof (cases "p = []")
  case True
  then show ?thesis
    by (simp add: steps_def render_path_def normalize_segments_def normalize_step_def)
next
  case False
  assume v: "list_all valid_name p"
  then have "\<forall>w \<in> set p. CHR ''/'' \<notin> set w"
    by (auto simp: list_all_iff valid_name_def)
  with False have "split_on CHR ''/'' (join ''/'' p) = p"
    using split_on_join[of p "CHR ''/''"] by simp
  then show ?thesis
    using v
    by (simp add: steps_def render_path_def normalize_segments_def normalize_step_def
        foldl_normalize_names)
qed

section \<open>Mutations keep the volume well formed\<close>

lemma wf_volume_iff:
  "wf_volume v \<longleftrightarrow>
     distinct (map fst v) \<and>
     (\<forall>p n. map_of v p = Some n \<longrightarrow>
        p \<noteq> [] \<and> list_all valid_name p \<and> node_at v (butlast p) = Some Directory)"
proof
  assume w: "wf_volume v"
  then have d: "distinct (map fst v)" by (simp add: wf_volume_def)
  show "distinct (map fst v) \<and>
     (\<forall>p n. map_of v p = Some n \<longrightarrow>
        p \<noteq> [] \<and> list_all valid_name p \<and> node_at v (butlast p) = Some Directory)"
  proof (intro conjI allI impI)
    show "distinct (map fst v)" by (rule d)
  next
    fix p n assume "map_of v p = Some n"
    then have "(p, n) \<in> set v" by (rule map_of_SomeD)
    with w show "p \<noteq> []" and "list_all valid_name p"
      and "node_at v (butlast p) = Some Directory"
      by (auto simp: wf_volume_def)
  qed
next
  assume a: "distinct (map fst v) \<and>
     (\<forall>p n. map_of v p = Some n \<longrightarrow>
        p \<noteq> [] \<and> list_all valid_name p \<and> node_at v (butlast p) = Some Directory)"
  then have "\<And>p n. (p, n) \<in> set v \<Longrightarrow> map_of v p = Some n"
    by simp
  with a show "wf_volume v"
    unfolding wf_volume_def by blast
qed

lemma wf_emptyVolume: "wf_volume emptyVolume"
  by (simp add: wf_volume_def emptyVolume_def)

lemma wf_put:
  assumes "wf_volume v" and "p \<noteq> []" and "list_all valid_name p"
    and "node_at v (butlast p) = Some Directory"
    and "node_at v p = Some Directory \<Longrightarrow> n = Directory"
  shows "wf_volume (AList.update p n v)"
  unfolding wf_volume_iff
proof (intro conjI allI impI)
  show "distinct (map fst (AList.update p n v))"
    using assms(1) by (simp add: wf_volume_iff distinct_update)
next
  fix q m assume q: "map_of (AList.update p n v) q = Some m"
  have old: "q \<noteq> p \<Longrightarrow> map_of v q = Some m"
    using q by (simp add: update_conv')
  show "q \<noteq> []" using assms(1,2) old by (cases "q = p") (auto simp: wf_volume_iff)
  show "list_all valid_name q" using assms(1,3) old by (cases "q = p") (auto simp: wf_volume_iff)
  show "node_at (AList.update p n v) (butlast q) = Some Directory"
  proof (cases "q = p")
    case True
    have "butlast p \<noteq> p" using assms(2) by (metis length_butlast diff_less length_greater_0_conv less_irrefl zero_less_one)
    with True assms(2,4) show ?thesis by (simp add: node_at_update)
  next
    case False
    then have "node_at v (butlast q) = Some Directory"
      using old assms(1) by (auto simp: wf_volume_iff)
    with assms(2,5) show ?thesis by (auto simp: node_at_update)
  qed
qed

lemma wf_delete_file:
  assumes "wf_volume v" and "node_at v p = Some (File c)"
  shows "wf_volume (AList.delete p v)"
  unfolding wf_volume_iff
proof (intro conjI allI impI)
  show "distinct (map fst (AList.delete p v))"
    using assms(1) by (simp add: wf_volume_iff distinct_delete)
next
  fix q m assume q: "map_of (AList.delete p v) q = Some m"
  then have qp: "q \<noteq> p" and old: "map_of v q = Some m"
    by (auto simp: delete_conv' split: if_splits)
  show "q \<noteq> []" and "list_all valid_name q"
    using assms(1) old by (auto simp: wf_volume_iff)
  have par: "node_at v (butlast q) = Some Directory"
    using assms(1) old by (auto simp: wf_volume_iff)
  with assms(2) have "butlast q \<noteq> p" by auto
  with par show "node_at (AList.delete p v) (butlast q) = Some Directory"
    by (auto simp: node_at_def split: if_splits)
qed

lemma map_of_filter_keys:
  "map_of (filter (\<lambda>(k, x). P k) al) k = (if P k then map_of al k else None)"
  by (induction al) auto

lemma take_butlast_prefix:
  "take (length p) (butlast q) = p \<Longrightarrow> take (length p) q = p"
  by (metis butlast_conv_take take_all_iff take_take min.absorb1 nat_le_linear length_take)

lemma wf_rm_recursive: "wf_volume v \<Longrightarrow> wf_volume (fs_rm_recursive v p)"
proof (cases "steps p = []")
  case True
  assume "wf_volume v"
  with True show ?thesis by (simp add: fs_rm_recursive_def)
next
  case False
  assume w: "wf_volume v"
  let ?P = "\<lambda>q. take (length (steps p)) q \<noteq> steps p"
  have f: "fs_rm_recursive v p = filter (\<lambda>(q, n). ?P q) v"
    using False by (simp add: fs_rm_recursive_def)
  show ?thesis
    unfolding f wf_volume_iff
  proof (intro conjI allI impI)
    show "distinct (map fst (filter (\<lambda>(q, n). ?P q) v))"
      using w by (simp add: wf_volume_iff distinct_map_filter)
  next
    fix q m assume "map_of (filter (\<lambda>(q, n). ?P q) v) q = Some m"
    then have keep: "?P q" and old: "map_of v q = Some m"
      by (auto simp: map_of_filter_keys split: if_splits)
    show "q \<noteq> []" and "list_all valid_name q"
      using w old by (auto simp: wf_volume_iff)
    have par: "node_at v (butlast q) = Some Directory"
      using w old by (auto simp: wf_volume_iff)
    have "?P (butlast q)" using keep take_butlast_prefix by blast
    with par show "node_at (filter (\<lambda>(q, n). ?P q) v) (butlast q) = Some Directory"
      by (auto simp: node_at_def map_of_filter_keys split: if_splits)
  qed
qed

lemma wf_mkdirp_from:
  "wf_volume v \<Longrightarrow> list_all valid_name (pre @ ss) \<Longrightarrow> node_at v pre = Some Directory \<Longrightarrow>
   wf_volume (snd (mkdirp_from pre ss v))"
proof (induction ss arbitrary: pre v)
  case Nil
  then show ?case by simp
next
  case (Cons s ss)
  have ne: "pre @ [s] \<noteq> []" by simp
  have val: "list_all valid_name (pre @ [s])" using Cons.prems(2) by simp
  have val': "list_all valid_name ((pre @ [s]) @ ss)" using Cons.prems(2) by simp
  show ?case
  proof (cases "node_at v (pre @ [s])")
    case None
    let ?v = "AList.update (pre @ [s]) Directory v"
    have "wf_volume ?v"
      using Cons.prems(1) ne val Cons.prems(3) by (intro wf_put) simp_all
    moreover have "node_at ?v (pre @ [s]) = Some Directory"
      by (simp add: node_at_update)
    ultimately have "wf_volume (snd (mkdirp_from (pre @ [s]) ss ?v))"
      using Cons.IH val' by blast
    with None show ?thesis by simp
  next
    case (Some n)
    show ?thesis
    proof (cases n)
      case (File c)
      with Some Cons.prems(1) show ?thesis by simp
    next
      case Directory
      with Some have "wf_volume (snd (mkdirp_from (pre @ [s]) ss v))"
        using Cons.IH Cons.prems(1) val' by blast
      with Some Directory show ?thesis by simp
    qed
  qed
qed


lemma wf_open_for_write:
  assumes "wf_volume v" and "open_for_write v p = Inr old"
  shows "wf_volume (AList.update (steps p) (File d) v)"
proof -
  have ne: "steps p \<noteq> []"
    using assms(2) by (auto simp: open_for_write_def createError_def split: option.splits inode.splits)
  have nd: "node_at v (steps p) \<noteq> Some Directory"
    using assms(2) by (auto simp: open_for_write_def split: option.splits inode.splits)
  have par: "node_at v (butlast (steps p)) = Some Directory"
  proof (cases "node_at v (steps p)")
    case None
    with assms(2) show ?thesis
      by (auto simp: open_for_write_def split: option.splits inode.splits)
  next
    case (Some n)
    with ne have "map_of v (steps p) = Some n" by (simp add: node_at_def)
    with assms(1) show ?thesis by (simp add: wf_volume_iff)
  qed
  show ?thesis
    using assms(1) ne steps_valid par nd by (intro wf_put) auto
qed

lemma wf_fs_writeFile: "wf_volume v \<Longrightarrow> fs_writeFile v p d = Inr v' \<Longrightarrow> wf_volume v'"
  by (auto simp: fs_writeFile_def split: sum.splits dest: wf_open_for_write)

lemma wf_fs_appendFile: "wf_volume v \<Longrightarrow> fs_appendFile v p d = Inr v' \<Longrightarrow> wf_volume v'"
  by (auto simp: fs_appendFile_def split: sum.splits dest: wf_open_for_write)

lemma wf_fs_copyFile: "wf_volume v \<Longrightarrow> fs_copyFile v src dest = Inr v' \<Longrightarrow> wf_volume v'"
  by (auto simp: fs_copyFile_def split: sum.splits dest: wf_fs_writeFile)

lemma wf_fs_unlink: "wf_volume v \<Longrightarrow> fs_unlink v p = Inr v' \<Longrightarrow> wf_volume v'"
  by (auto simp: fs_unlink_def split: option.splits inode.splits dest: wf_delete_file)

lemma wf_fs_mkdir: "wf_volume v \<Longrightarrow> wf_volume (snd (fs_mkdir v p recursive))"
proof (cases recursive)
  case True
  assume w: "wf_volume v"
  have "wf_volume (snd (mkdirp_from [] (steps p) v))"
    using w steps_valid[of p] by (intro wf_mkdirp_from) simp_all
  with True show ?thesis
    by (auto simp: fs_mkdir_def split: prod.splits option.splits)
next
  case False
  assume w: "wf_volume v"
  have "wf_volume (AList.update (steps p) Directory v)"
    if "steps p \<noteq> []" "node_at v (butlast (steps p)) = Some Directory"
    using w that steps_valid[of p] by (intro wf_put) auto
  with False w show ?thesis
    by (auto simp: fs_mkdir_def split: option.splits inode.splits)
qed

lemma wf_apply_mutation: "wf_volume v \<Longrightarrow> wf_volume (apply_mutation v m)"
proof (cases m)
  case (WriteFile p d)
  assume "wf_volume v"
  with WriteFile show ?thesis
    by (auto simp: keep_on_error_def split: sum.splits dest: wf_fs_writeFile)
next
  case (AppendFile p d)
  assume "wf_volume v"
  with AppendFile show ?thesis
    by (auto simp: keep_on_error_def split: sum.splits dest: wf_fs_appendFile)
next
  case (Mkdir p r)
  assume "wf_volume v"
  with Mkdir show ?thesis by (simp add: wf_fs_mkdir)
next
  case (CopyFile s d)
  assume "wf_volume v"
  with CopyFile show ?thesis
    by (auto simp: keep_on_error_def split: sum.splits dest: wf_fs_copyFile)
next
  case (Unlink p)
  assume "wf_volume v"
  with Unlink show ?thesis
    by (auto simp: keep_on_error_def split: sum.splits dest: wf_fs_unlink)
next
  case (RmRecursive p)
  assume "wf_volume v"
  with RmRecursive show ?thesis by (simp add: wf_rm_recursive)
qed

lemma wf_foldl_mutations: "wf_volume v \<Longrightarrow> wf_volume (foldl apply_mutation v ms)"
  by (induction ms arbitrary: v) (auto simp: wf_apply_mutation)

lemma wf_apply_mutations: "wf_volume (apply_mutations ms emptyVolume)"
  unfolding apply_mutations_def by (rule wf_foldl_mutations) (rule wf_emptyVolume)

section \<open>Restoring a snapshot\<close>

lemma wf_parent:
  "wf_volume v \<Longrightarrow> node_at v q = Some n \<Longrightarrow> node_at v (butlast q) = Some Directory"
  by (cases "q = []") (auto simp: wf_volume_iff node_at_def)

lemma wf_ancestors_aux:
  "wf_volume v \<Longrightarrow> node_at v q = Some n \<Longrightarrow> j < length q \<Longrightarrow>
   node_at v (take (length q - Suc j) q) = Some Directory"
proof (induction j)
  case 0
  then show ?case using wf_parent[of v q n] by (simp add: butlast_conv_take)
next
  case (Suc j)
  then have "node_at v (take (length q - Suc j) q) = Some Directory" by simp
  then have "node_at v (butlast (take (length q - Suc j) q)) = Some Directory"
    using Suc.prems(1) wf_parent by blast
  then show ?case by (simp add: butlast_take)
qed

lemma wf_ancestors:
  assumes "wf_volume v" and "node_at v q = Some n" and "k < length q"
  shows "node_at v (take k q) = Some Directory"
proof -
  have "length q - Suc k < length q" using assms(3) by simp
  moreover have "length q - Suc (length q - Suc k) = k" using assms(3) by simp
  ultimately show ?thesis using wf_ancestors_aux[OF assms(1,2), of "length q - Suc k"] by simp
qed

lemma mkdirp_below:
  assumes "map_of w \<subseteq>\<^sub>m map_of v"
    and "\<forall>k. 0 < k \<and> k \<le> length ss \<longrightarrow> map_of v (pre @ take k ss) = Some Directory"
  shows "\<exists>w'. mkdirp_from pre ss w = (None, w') \<and> map_of w' \<subseteq>\<^sub>m map_of v
           \<and> map_of w \<subseteq>\<^sub>m map_of w'
           \<and> (\<forall>k. 0 < k \<and> k \<le> length ss \<longrightarrow> map_of w' (pre @ take k ss) = Some Directory)"
  using assms
proof (induction ss arbitrary: pre w)
  case Nil
  then show ?case by simp
next
  case (Cons s ss)
  have vd: "map_of v (pre @ [s]) = Some Directory"
    using Cons.prems(2)[rule_format, of 1] by simp
  have rest: "\<forall>k. 0 < k \<and> k \<le> length ss \<longrightarrow> map_of v ((pre @ [s]) @ take k ss) = Some Directory"
  proof (intro allI impI)
    fix k assume "0 < k \<and> k \<le> length ss"
    then show "map_of v ((pre @ [s]) @ take k ss) = Some Directory"
      using Cons.prems(2)[rule_format, of "Suc k"] by simp
  qed
  have na: "node_at w (pre @ [s]) = map_of w (pre @ [s])" by (simp add: node_at_def)
  show ?case
  proof (cases "map_of w (pre @ [s])")
    case None
    let ?w = "AList.update (pre @ [s]) Directory w"
    have b: "map_of ?w \<subseteq>\<^sub>m map_of v"
      using Cons.prems(1) vd by (auto simp: map_le_def update_conv')
    have up: "map_of w \<subseteq>\<^sub>m map_of ?w"
      using None by (auto simp: map_le_def update_conv')
    obtain w' where w': "mkdirp_from (pre @ [s]) ss ?w = (None, w')"
      "map_of w' \<subseteq>\<^sub>m map_of v" "map_of ?w \<subseteq>\<^sub>m map_of w'"
      "\<forall>k. 0 < k \<and> k \<le> length ss \<longrightarrow> map_of w' ((pre @ [s]) @ take k ss) = Some Directory"
      using Cons.IH[OF b rest] by blast
    have here: "map_of w' (pre @ [s]) = Some Directory"
      using w'(3) by (auto simp: map_le_def update_conv' dom_def)
    have "\<forall>k. 0 < k \<and> k \<le> length (s # ss) \<longrightarrow> map_of w' (pre @ take k (s # ss)) = Some Directory"
    proof (intro allI impI)
      fix k assume k: "0 < k \<and> k \<le> length (s # ss)"
      then obtain j where j: "k = Suc j" by (cases k) auto
      show "map_of w' (pre @ take k (s # ss)) = Some Directory"
      proof (cases "j = 0")
        case True
        with j here show ?thesis by simp
      next
        case False
        with k j w'(4) show ?thesis by simp
      qed
    qed
    moreover have "map_of w \<subseteq>\<^sub>m map_of w'"
      using up w'(3) by (rule map_le_trans)
    ultimately show ?thesis using None na w'(1,2) by simp
  next
    case (Some n)
    then have n: "n = Directory"
      using Cons.prems(1) vd by (auto simp: map_le_def dom_def)
    obtain w' where w': "mkdirp_from (pre @ [s]) ss w = (None, w')"
      "map_of w' \<subseteq>\<^sub>m map_of v" "map_of w \<subseteq>\<^sub>m map_of w'"
      "\<forall>k. 0 < k \<and> k \<le> length ss \<longrightarrow> map_of w' ((pre @ [s]) @ take k ss) = Some Directory"
      using Cons.IH[OF Cons.prems(1) rest] by blast
    have here: "map_of w' (pre @ [s]) = Some Directory"
      using w'(3) Some n by (auto simp: map_le_def dom_def)
    have "\<forall>k. 0 < k \<and> k \<le> length (s # ss) \<longrightarrow> map_of w' (pre @ take k (s # ss)) = Some Directory"
    proof (intro allI impI)
      fix k assume k: "0 < k \<and> k \<le> length (s # ss)"
      then obtain j where j: "k = Suc j" by (cases k) auto
      show "map_of w' (pre @ take k (s # ss)) = Some Directory"
      proof (cases "j = 0")
        case True
        with j here show ?thesis by simp
      next
        case False
        with k j w'(4) show ?thesis by simp
      qed
    qed
    then show ?thesis using Some n na w'(1,2,3) by simp
  qed
qed

lemma restore_file_entry:
  assumes "wf_volume v" and "map_of w \<subseteq>\<^sub>m map_of v" and "map_of v p = Some (File c)"
  shows "\<exists>w'. fromJSON_entry w (render_path p, Some c) = Inr w'
           \<and> map_of w' \<subseteq>\<^sub>m map_of v \<and> map_of w \<subseteq>\<^sub>m map_of w'
           \<and> (\<forall>k. 0 < k \<and> k \<le> length p \<longrightarrow> map_of w' (take k p) \<noteq> None)"
proof -
  have ne: "p \<noteq> []" and val: "list_all valid_name p"
    using assms(1,3) by (auto simp: wf_volume_iff)
  have st: "steps (render_path p) = p" using val by (rule steps_render_path)
  have nv: "node_at v p = Some (File c)" using ne assms(3) by (simp add: node_at_def)
  have dirs: "\<forall>k. 0 < k \<and> k \<le> length (butlast p) \<longrightarrow>
                map_of v ([] @ take k (butlast p)) = Some Directory"
  proof (intro allI impI)
    fix k assume k: "0 < k \<and> k \<le> length (butlast p)"
    then have kl: "k < length p" using ne by (cases p rule: rev_cases) auto
    then have "node_at v (take k p) = Some Directory"
      using wf_ancestors[OF assms(1) nv] by blast
    moreover have "take k p \<noteq> []" using k ne by simp
    moreover have "take k (butlast p) = take k p" using kl by (simp add: take_butlast)
    ultimately show "map_of v ([] @ take k (butlast p)) = Some Directory"
      by (simp add: node_at_def)
  qed
  obtain w1 where w1: "mkdirp_from [] (butlast p) w = (None, w1)"
    "map_of w1 \<subseteq>\<^sub>m map_of v" "map_of w \<subseteq>\<^sub>m map_of w1"
    "\<forall>k. 0 < k \<and> k \<le> length (butlast p) \<longrightarrow> map_of w1 ([] @ take k (butlast p)) = Some Directory"
    using mkdirp_below[OF assms(2) dirs] by blast
  have at_p: "map_of w1 p = None \<or> map_of w1 p = Some (File c)"
    using w1(2) assms(3) by (auto simp: map_le_def dom_def)
  have parent: "node_at w1 (butlast p) = Some Directory"
  proof (cases "butlast p = []")
    case True
    then show ?thesis by simp
  next
    case False
    then have "map_of w1 ([] @ take (length (butlast p)) (butlast p)) = Some Directory"
      using w1(4) by blast
    with False show ?thesis by (simp add: node_at_def)
  qed
  let ?w' = "AList.update p (File c) w1"
  have wr: "fs_writeFile w1 (render_path p) c = Inr ?w'"
    using at_p parent ne
    by (auto simp: fs_writeFile_def open_for_write_def st node_at_def)
  have below: "map_of ?w' \<subseteq>\<^sub>m map_of v"
    using w1(2) assms(3) by (auto simp: map_le_def update_conv')
  have above1: "map_of w1 \<subseteq>\<^sub>m map_of ?w'"
    using at_p by (auto simp: map_le_def update_conv')
  have above: "map_of w \<subseteq>\<^sub>m map_of ?w'"
    using w1(3) above1 by (rule map_le_trans)
  have all: "\<forall>k. 0 < k \<and> k \<le> length p \<longrightarrow> map_of ?w' (take k p) \<noteq> None"
  proof (intro allI impI)
    fix k assume k: "0 < k \<and> k \<le> length p"
    show "map_of ?w' (take k p) \<noteq> None"
    proof (cases "k = length p")
      case True
      then show ?thesis by (simp add: update_conv')
    next
      case False
      with k have kl: "k \<le> length (butlast p)" by (simp; arith)
      then have "map_of w1 ([] @ take k (butlast p)) = Some Directory"
        using k w1(4) by blast
      moreover have "take k (butlast p) = take k p" using kl False k by (simp add: take_butlast)
      ultimately have "map_of w1 (take k p) = Some Directory" by simp
      then show ?thesis using above1 by (auto simp: map_le_def dom_def)
    qed
  qed
  show ?thesis
    using w1(1) wr below above all by (simp add: fromJSON_entry_def st)
qed

lemma restore_directory_entry:
  assumes "wf_volume v" and "map_of w \<subseteq>\<^sub>m map_of v" and "map_of v p = Some Directory"
  shows "\<exists>w'. fromJSON_entry w (render_path p, None) = Inr w'
           \<and> map_of w' \<subseteq>\<^sub>m map_of v \<and> map_of w \<subseteq>\<^sub>m map_of w'
           \<and> (\<forall>k. 0 < k \<and> k \<le> length p \<longrightarrow> map_of w' (take k p) \<noteq> None)"
proof -
  have ne: "p \<noteq> []" and val: "list_all valid_name p"
    using assms(1,3) by (auto simp: wf_volume_iff)
  have st: "steps (render_path p) = p" using val by (rule steps_render_path)
  have nv: "node_at v p = Some Directory" using ne assms(3) by (simp add: node_at_def)
  have dirs: "\<forall>k. 0 < k \<and> k \<le> length p \<longrightarrow> map_of v ([] @ take k p) = Some Directory"
  proof (intro allI impI)
    fix k assume k: "0 < k \<and> k \<le> length p"
    show "map_of v ([] @ take k p) = Some Directory"
    proof (cases "k = length p")
      case True
      with assms(3) show ?thesis by simp
    next
      case False
      with k have "k < length p" by simp
      then have "node_at v (take k p) = Some Directory"
        using wf_ancestors[OF assms(1) nv] by blast
      moreover have "take k p \<noteq> []" using k ne by simp
      ultimately show ?thesis by (simp add: node_at_def)
    qed
  qed
  obtain w1 where w1: "mkdirp_from [] p w = (None, w1)"
    "map_of w1 \<subseteq>\<^sub>m map_of v" "map_of w \<subseteq>\<^sub>m map_of w1"
    "\<forall>k. 0 < k \<and> k \<le> length p \<longrightarrow> map_of w1 ([] @ take k p) = Some Directory"
    using mkdirp_below[OF assms(2) dirs] by blast
  then show ?thesis by (auto simp: fromJSON_entry_def st)
qed

lemma toJSON_entry_cases:
  assumes "wf_volume v" and "e \<in> set (Volume_toJSON v)"
  shows "\<exists>p. (\<exists>c. e = (render_path p, Some c) \<and> map_of v p = Some (File c))
            \<or> (e = (render_path p, None) \<and> map_of v p = Some Directory)"
proof -
  from assms(2) obtain p n where pn: "(p, n) \<in> set v" and e: "e \<in> set (json_entry v (p, n))"
    by (auto simp: Volume_toJSON_def)
  have m: "map_of v p = Some n" using assms(1) pn by (simp add: wf_volume_iff)
  show ?thesis
  proof (cases n)
    case (File c)
    with e m show ?thesis by (auto simp: json_entry_def)
  next
    case Directory
    with e m show ?thesis by (auto simp: json_entry_def split: if_splits)
  qed
qed

lemma restore_entries:
  assumes "wf_volume v"
  shows "map_of w \<subseteq>\<^sub>m map_of v \<Longrightarrow> set es \<subseteq> set (Volume_toJSON v) \<Longrightarrow>
         \<exists>w'. fromJSON_loop es w = Inr w' \<and> map_of w' \<subseteq>\<^sub>m map_of v \<and> map_of w \<subseteq>\<^sub>m map_of w'
           \<and> (\<forall>f d k. (f, d) \<in> set es \<and> 0 < k \<and> k \<le> length (steps f)
                 \<longrightarrow> map_of w' (take k (steps f)) \<noteq> None)"
proof (induction es arbitrary: w)
  case Nil
  then show ?case by simp
next
  case (Cons e es)
  have "e \<in> set (Volume_toJSON v)" using Cons.prems(2) by simp
  then obtain p where p:
    "(\<exists>c. e = (render_path p, Some c) \<and> map_of v p = Some (File c))
       \<or> (e = (render_path p, None) \<and> map_of v p = Some Directory)"
    using toJSON_entry_cases[OF assms] by blast
  then have val: "list_all valid_name p" using assms unfolding wf_volume_iff by blast
  have st: "steps (fst e) = p" using p val by (auto simp: steps_render_path)
  obtain w1 where w1: "fromJSON_entry w e = Inr w1" "map_of w1 \<subseteq>\<^sub>m map_of v"
    "map_of w \<subseteq>\<^sub>m map_of w1" "\<forall>k. 0 < k \<and> k \<le> length p \<longrightarrow> map_of w1 (take k p) \<noteq> None"
    using p restore_file_entry[OF assms Cons.prems(1)] restore_directory_entry[OF assms Cons.prems(1)]
    by blast
  obtain w' where w': "fromJSON_loop es w1 = Inr w'" "map_of w' \<subseteq>\<^sub>m map_of v"
    "map_of w1 \<subseteq>\<^sub>m map_of w'"
    "\<forall>f d k. (f, d) \<in> set es \<and> 0 < k \<and> k \<le> length (steps f)
        \<longrightarrow> map_of w' (take k (steps f)) \<noteq> None"
    using Cons.IH[OF w1(2)] Cons.prems(2) by auto
  have head: "\<forall>k. 0 < k \<and> k \<le> length p \<longrightarrow> map_of w' (take k p) \<noteq> None"
    using w1(4) w'(3) by (fastforce simp: map_le_def dom_def)
  have "\<forall>f d k. (f, d) \<in> set (e # es) \<and> 0 < k \<and> k \<le> length (steps f)
          \<longrightarrow> map_of w' (take k (steps f)) \<noteq> None"
  proof (intro allI impI)
    fix f d k assume a: "(f, d) \<in> set (e # es) \<and> 0 < k \<and> k \<le> length (steps f)"
    show "map_of w' (take k (steps f)) \<noteq> None"
    proof (cases "(f, d) = e")
      case True
      then have "steps f = p" using st by auto
      with a head show ?thesis by simp
    next
      case False
      with a w'(4) show ?thesis by auto
    qed
  qed
  moreover have "map_of w \<subseteq>\<^sub>m map_of w'" using w1(3) w'(3) by (rule map_le_trans)
  ultimately show ?case using w1(1) w'(1,2) by simp
qed

lemma key_length_bound:
  "(q, m) \<in> set v \<Longrightarrow> length q \<le> sum_list (map (length \<circ> fst) v)"
  by (induction v) auto

lemma has_leaf:
  assumes "wf_volume v"
  shows "map_of v p = Some n \<Longrightarrow>
         \<exists>f d. (f, d) \<in> set (Volume_toJSON v) \<and> length p \<le> length (steps f)
              \<and> take (length p) (steps f) = p"
proof (induction "sum_list (map (length \<circ> fst) v) - length p" arbitrary: p n rule: less_induct)
  case less
  have pn: "(p, n) \<in> set v" using less.prems by (rule map_of_SomeD)
  have val: "list_all valid_name p" using assms less.prems by (auto simp: wf_volume_iff)
  have self: "steps (render_path p) = p" using val by (rule steps_render_path)
  show ?case
  proof (cases "n = Directory \<and> has_child v p")
    case False
    have "\<exists>d. (render_path p, d) \<in> set (Volume_toJSON v)"
    proof (cases n)
      case (File c)
      with pn show ?thesis by (force simp: Volume_toJSON_def json_entry_def)
    next
      case Directory
      with False pn show ?thesis by (force simp: Volume_toJSON_def json_entry_def)
    qed
    with self show ?thesis by auto
  next
    case True
    then obtain q m where q: "(q, m) \<in> set v" "q \<noteq> []" "butlast q = p"
      by (auto simp: has_child_def list_ex_iff)
    have lq: "length q = Suc (length p)" using q(2,3) by (cases q rule: rev_cases) auto
    have mq: "map_of v q = Some m" using assms q(1) by (simp add: wf_volume_iff)
    have "length q \<le> sum_list (map (length \<circ> fst) v)" using q(1) by (rule key_length_bound)
    then have "sum_list (map (length \<circ> fst) v) - length q < sum_list (map (length \<circ> fst) v) - length p"
      using lq by simp
    then obtain f d where f: "(f, d) \<in> set (Volume_toJSON v)" "length q \<le> length (steps f)"
      "take (length q) (steps f) = q"
      using less.hyps[OF _ mq] by blast
    have "take (length p) (steps f) = take (length p) (take (length q) (steps f))"
      using lq by simp
    also have "\<dots> = take (length p) q" by (simp add: f(3))
    also have "\<dots> = p" using q(3) lq by (simp add: butlast_conv_take)
    finally have "take (length p) (steps f) = p" .
    with f(1,2) lq show ?thesis by (intro exI[of _ f] exI[of _ d]) simp
  qed
qed

lemma restore_round_trip:
  assumes "wf_volume v"
  shows "\<exists>w'. Volume_fromJSON (Volume_toJSON v) = Inr w' \<and> (\<forall>p. node_at w' p = node_at v p)"
proof -
  have "map_of emptyVolume \<subseteq>\<^sub>m map_of v" by (simp add: emptyVolume_def)
  then obtain w' where w': "fromJSON_loop (Volume_toJSON v) emptyVolume = Inr w'"
    "map_of w' \<subseteq>\<^sub>m map_of v"
    "\<forall>f d k. (f, d) \<in> set (Volume_toJSON v) \<and> 0 < k \<and> k \<le> length (steps f)
        \<longrightarrow> map_of w' (take k (steps f)) \<noteq> None"
    using restore_entries[OF assms, of emptyVolume "Volume_toJSON v"] by auto
  have "node_at w' p = node_at v p" for p
  proof (cases "p = []")
    case True
    then show ?thesis by simp
  next
    case False
    show ?thesis
    proof (cases "map_of v p")
      case None
      then have "map_of w' p = None" using w'(2) by (auto simp: map_le_def dom_def)
      with None False show ?thesis by (simp add: node_at_def)
    next
      case (Some n)
      then obtain f d where f: "(f, d) \<in> set (Volume_toJSON v)" "length p \<le> length (steps f)"
        "take (length p) (steps f) = p"
        using has_leaf[OF assms] by blast
      have "map_of w' (take (length p) (steps f)) \<noteq> None"
        using w'(3) f(1,2) False by blast
      then obtain m where "map_of w' p = Some m" using f(3) by auto
      then have "map_of w' p = map_of v p" using w'(2) by (auto simp: map_le_def dom_def)
      with False show ?thesis by (simp add: node_at_def)
    qed
  qed
  with w'(1) show ?thesis by (simp add: Volume_fromJSON_def)
qed

text \<open>
  Claim C7.  For every sequence of mutations applied to the empty volume, the snapshot
  that \<open>serializeVolume\<close> writes of the resulting volume is restored by
  \<open>deserializeVolume\<close> without an error, on any constructed shell, to a volume that
  holds at every path what the original holds there: the same file content, a
  directory, or nothing.
\<close>

theorem snapshot_round_trip:
  "volume (vs sh) = apply_mutations ms emptyVolume \<Longrightarrow>
   \<exists>v'. deserializeVolume sh2 (serializeVolume sh) = (Inr v', sh2\<lparr>vs := (vs sh2)\<lparr>volume := v'\<rparr>\<rparr>)
       \<and> (\<forall>p. node_at v' p = node_at (volume (vs sh)) p)"
proof -
  assume a: "volume (vs sh) = apply_mutations ms emptyVolume"
  have "wf_volume (volume (vs sh))" unfolding a by (rule wf_apply_mutations)
  then obtain w' where "Volume_fromJSON (Volume_toJSON (volume (vs sh))) = Inr w'"
    "\<forall>p. node_at w' p = node_at (volume (vs sh)) p"
    using restore_round_trip by blast
  then show ?thesis
    by (simp add: deserializeVolume_def serializeVolume_def JSON_stringify_def JSON_parse_def)
qed

lemma below_file_agree:
  "\<forall>p. node_at v' p = node_at v p \<Longrightarrow> below_file v' pre ss = below_file v pre ss"
  by (induction ss arbitrary: pre) (simp_all split: list.splits option.splits inode.splits)

lemma restored_reads_agree:
  "\<forall>p. node_at v' p = node_at v p \<Longrightarrow>
   fs_readFile v' path = fs_readFile v path \<and> fs_lstat v' path = fs_lstat v path
   \<and> fs_access v' path = fs_access v path"
  using below_file_agree[of v' v "[]" "steps path"]
  by (simp add: fs_readFile_def fs_lstat_def fs_access_def missing_code_def
      split: option.splits inode.splits)

lemma snapshot_shell_volume:
  "volume (vs snapshot_shell)
     = [([''tmp''], Directory), ([''tmp'', ''out.txt''], File ''onetwo''),
        ([''var''], Directory), ([''var'', ''empty''], Directory)]"
  by (simp add: snapshot_shell_def snapshot_mutations_def apply_mutations_def fresh_shell_def
      emptyVolume_def keep_on_error_def fs_defs)

lemma snapshot_shell_serialized:
  "serializeVolume snapshot_shell
     = JsonText [(''/tmp/out.txt'', Some ''onetwo''), (''/var/empty'', None)]"
  by (simp add: serializeVolume_def snapshot_shell_volume Volume_toJSON_def json_entry_def
      has_child_def JSON_stringify_def render_path_def)

theorem snapshot_round_trip_witness:
  "volume (vs snapshot_shell) = apply_mutations snapshot_mutations emptyVolume
   \<and> serializeVolume snapshot_shell
       = JsonText [(''/tmp/out.txt'', Some ''onetwo''), (''/var/empty'', None)]
   \<and> (\<exists>v'. deserializeVolume fresh_shell (serializeVolume snapshot_shell)
               = (Inr v', fresh_shell\<lparr>vs := (vs fresh_shell)\<lparr>volume := v'\<rparr>\<rparr>)
          \<and> (\<forall>p. node_at v' p = node_at (volume (vs snapshot_shell)) p))"
proof -
  have h: "volume (vs snapshot_shell) = apply_mutations snapshot_mutations emptyVolume"
    by (simp add: snapshot_shell_def)
  show ?thesis
    using h snapshot_shell_serialized
      snapshot_round_trip[where sh = snapshot_shell and ms = snapshot_mutations
        and ?sh2.0 = fresh_shell, OF h]
    by simp
qed

lemma snapshot_restored_value:
  "fst (deserializeVolume fresh_shell (serializeVolume snapshot_shell))
     = Inr [([''tmp''], Directory), ([''tmp'', ''out.txt''], File ''onetwo''),
            ([''var''], Directory), ([''var'', ''empty''], Directory)]"
  by (simp add: snapshot_shell_serialized deserializeVolume_def JSON_parse_def
      Volume_fromJSON_def fromJSON_entry_def emptyVolume_def fs_defs)

section \<open>Registered names\<close>

lemma lower_chars_not_upper: "l \<in> set lower_chars \<Longrightarrow> l \<notin> set upper_chars"
  by (simp add: lower_chars_def upper_chars_def) blast

lemma lower_char_idem: "lower_char (lower_char c) = lower_char c"
proof (cases "map_of (zip upper_chars lower_chars) c")
  case None
  then show ?thesis by (simp add: lower_char_def)
next
  case (Some l)
  then have "l \<in> set lower_chars"
    by (meson map_of_SomeD set_zip_rightD)
  then have "l \<notin> set upper_chars" by (rule lower_chars_not_upper)
  then have "map_of (zip upper_chars lower_chars) l = None"
    by (metis map_of_eq_None_iff set_zip_leftD fst_conv imageE prod.collapse)
  with Some show ?thesis by (simp add: lower_char_def)
qed

lemma toLowerCase_idem: "toLowerCase (toLowerCase s) = toLowerCase s"
  by (simp add: toLowerCase_def lower_char_idem)

lemma import_step:
  "snd (importCommandModules host load (f # files) cmds) = cmds
   \<or> snd (importCommandModules host load (f # files) cmds)
       = snd (importCommandModules host load files cmds)
   \<or> (\<exists>c. snd (importCommandModules host load (f # files) cmds)
            = snd (importCommandModules host load files
                     (AList.update (toLowerCase (remove_first ''-command.js'' f)) c cmds)))"
  by (simp add: Let_def split: sum.splits option.splits exported.splits) blast

lemma import_registers_lowercase:
  "\<forall>k \<in> fst ` set cmds. toLowerCase k = k \<Longrightarrow>
   \<forall>k \<in> fst ` set (snd (importCommandModules host load files cmds)). toLowerCase k = k"
proof (induction files arbitrary: cmds)
  case Nil
  then show ?case by simp
next
  case (Cons f files)
  have step: "\<forall>k \<in> fst ` set (AList.update (toLowerCase n) c cmds). toLowerCase k = k" for n c
    using Cons.prems by (auto simp: dom_update toLowerCase_idem)
  from import_step[of host load f files cmds]
  consider "snd (importCommandModules host load (f # files) cmds) = cmds"
    | "snd (importCommandModules host load (f # files) cmds)
         = snd (importCommandModules host load files cmds)"
    | c where "snd (importCommandModules host load (f # files) cmds)
         = snd (importCommandModules host load files
                  (AList.update (toLowerCase (remove_first ''-command.js'' f)) c cmds))"
    by blast
  then show ?case
  proof cases
    case 1
    show ?thesis unfolding 1 using Cons.prems by blast
  next
    case 2
    show ?thesis unfolding 2 using Cons.IH[OF Cons.prems] by blast
  next
    case 3
    show ?thesis unfolding 3 using Cons.IH[OF step] by blast
  qed
qed

lemma registerCommand_keeps_case:
  "map_of (commands (registerCommand sh name c)) name = Some c"
  by (simp add: registerCommand_def update_conv')

section \<open>rm, whatever its arguments\<close>

lemma rm_flags_rejected:
  "\<not> list_all (\<lambda>a. a = ''-r'' \<or> a = ''-R'') (takeWhile is_flag args) \<Longrightarrow>
   \<exists>e r' rest. rm_flags args r = (Some e, r', rest)"
  by (induction args arbitrary: r) (auto simp: is_flag_def startsWith_def split: if_splits)

lemma rm_accepts_iff: "fst (RmCommand_execute s args) = Inr [] \<longleftrightarrow> rm_accepts args"
proof
  assume "rm_accepts args"
  then show "fst (RmCommand_execute s args) = Inr []"
    using rm_flags_accepted[of args False]
    by (auto simp: RmCommand_execute_def rm_accepts_def)
next
  assume a: "fst (RmCommand_execute s args) = Inr []"
  show "rm_accepts args"
  proof (cases "list_all (\<lambda>a. a = ''-r'' \<or> a = ''-R'') (takeWhile is_flag args)")
    case True
    then obtain r' where "rm_flags args False = (None, r', dropWhile is_flag args)"
      using rm_flags_accepted[of args False] by blast
    with a True show ?thesis
      by (auto simp: RmCommand_execute_def rm_accepts_def split: if_splits)
  next
    case False
    then obtain e r' rest where "rm_flags args False = (Some e, r', rest)"
      using rm_flags_rejected[of args False] by blast
    with a show ?thesis
      by (auto simp: RmCommand_execute_def split: if_splits)
  qed
qed

lemma rm_never_touches_state: "fst (snd (RmCommand_execute s args)) = s"
  by (simp add: RmCommand_execute_def split: prod.splits option.splits)

section \<open>More on construction\<close>

lemma constructor_with_snapshot_throws:
  "opt_serializedVolume options = Some snapshot \<Longrightarrow>
   \<exists>err. VirtualShell_constructor host options readdir load = Inl err"
  by (simp add: VirtualShell_constructor_def)

lemma command_runs_on_returned_shell:
  "opt_serializedVolume options = None \<Longrightarrow>
   VirtualShell_constructor host options (Inr files) load = Inr c \<Longrightarrow>
   fst (executeCommand parse_words (shell_returned c) ''echo hi'')
     = Inr ''bash: echo: command not found''"
proof -
  assume "opt_serializedVolume options = None"
    and c: "VirtualShell_constructor host options (Inr files) load = Inr c"
  then have "commands (shell_returned c) = []"
    using constructor_completes[of options host files load] by auto
  then show ?thesis
    by (simp add: executeCommand_def isInvalidCommand_def trim_def is_space_def
        is_line_terminator_def extractRedirection_def tail_matches_def target_ok_def
        parse_words_def in_commands_def commands_get_def Object_prototype_keys_def
        ERR_CMD_NOT_FOUND_def Let_def resolved_def)
qed

end
